theory Spec2Isabelle
  imports Main "HOL-Library.Product_Lexorder" "HOL-Library.List_Lexorder" "HOL-Library.Char_ord"
begin

section \<open>Leaderboard engine: server/core\_leaderboard.go\<close>

text \<open>
  A shallow embedding of \<^verbatim>\<open>src/server/core_leaderboard.go\<close>. Go strings and byte
  slices are \<open>string\<close> (lists of bytes), compared lexicographically; \<open>int64\<close> values are
  \<open>int\<close> with the range written out where the code or the store can leave it. Every
  \<open>return nil, err\<close> and every run-time panic of the source is a value of \<open>error\<close>.
\<close>

subsection \<open>Errors\<close>

datatype error =
    ErrLeaderboardNotFound
  | ErrLeaderboardAuthoritative
  | ErrLeaderboardInvalidCursor
  | ErrInvalidOperator
  | ErrGobEncode
  | ErrStore
  | Panic

subsection \<open>The list cursor and its codec\<close>

record leaderboardRecordListCursor =
  IsNext :: bool
  LeaderboardId :: string
  ExpiryTime :: int
  Score :: int
  Subscore :: int
  OwnerId :: string
  Rank :: int

text \<open>
  \<open>encoding/gob\<close> and \<open>encoding/base64\<close> are Go's standard library, not code of this
  repository: the four functions the cursor codec calls are parameters. A failing
  \<open>Encode\<close>, \<open>Decode\<close> or \<open>DecodeString\<close> is \<open>None\<close>.
\<close>

record codec =
  gob_Encode :: "leaderboardRecordListCursor \<Rightarrow> string option"
  gob_Decode :: "string \<Rightarrow> leaderboardRecordListCursor option"
  base64_EncodeToString :: "string \<Rightarrow> string"
  base64_DecodeString :: "string \<Rightarrow> string option"

definition marshalLeaderboardRecordsListCursor ::
  "codec \<Rightarrow> leaderboardRecordListCursor \<Rightarrow> error + string" where
  "marshalLeaderboardRecordsListCursor K cursor =
     (case gob_Encode K cursor of
        None \<Rightarrow> Inl ErrGobEncode
      | Some cursorBuf \<Rightarrow> Inr (base64_EncodeToString K cursorBuf))"

definition unmarshalLeaderboardRecordsListCursor ::
  "codec \<Rightarrow> string \<Rightarrow> int \<Rightarrow> string \<Rightarrow> error + leaderboardRecordListCursor option" where
  "unmarshalLeaderboardRecordsListCursor K leaderboardId expiryTime cursor =
     (if cursor = [] then Inr None
      else
        (case base64_DecodeString K cursor of
           None \<Rightarrow> Inl ErrLeaderboardInvalidCursor
         | Some cb \<Rightarrow>
             (case gob_Decode K cb of
                None \<Rightarrow> Inl ErrLeaderboardInvalidCursor
              | Some incomingCursor \<Rightarrow>
                  if leaderboardId = LeaderboardId incomingCursor
                  then (if expiryTime = ExpiryTime incomingCursor
                        then Inr (Some incomingCursor)
                        else Inl ErrLeaderboardInvalidCursor)
                  else Inl ErrLeaderboardInvalidCursor)))"

text \<open>
  A small concrete instance of the two library interfaces, used to run the model on
  concrete inputs. The wire form of a cursor is a text: \<open>n\<close> or \<open>p\<close> for \<open>IsNext\<close>, then
  the fields in order, an integer in decimal closed by \<open>_\<close> (\<open>-\<close> in front when negative),
  a string as its length and its bytes. The text transport is the identity and accepts
  the URL-safe alphabet only.
\<close>

function enc_nat :: "int \<Rightarrow> string" where
  "enc_nat n =
     (if n < 10 then [char_of (48 + n)] else enc_nat (n div 10) @ [char_of (48 + n mod 10)])"
  by pat_completeness auto
termination
  by (relation "measure nat") auto

declare enc_nat.simps [simp del]

definition enc_int :: "int \<Rightarrow> string" where
  "enc_int i = (if i < 0 then ''-'' @ enc_nat (- i) else enc_nat i) @ ''_''"

definition enc_str :: "string \<Rightarrow> string" where
  "enc_str s = enc_nat (int (length s)) @ ''_'' @ s"

definition is_digit :: "char \<Rightarrow> bool" where
  "is_digit c = (c \<in> set ''0123456789'')"

definition dec_nat :: "string \<Rightarrow> (int \<times> string) option" where
  "dec_nat s =
     (let ds = takeWhile is_digit s; rest = dropWhile is_digit s in
      case rest of
        [] \<Rightarrow> None
      | c # rest' \<Rightarrow>
          if ds = [] then None
          else if c = CHR ''_'' then Some (foldl (\<lambda>a d. 10 * a + (of_char d - 48)) 0 ds, rest')
          else None)"

definition dec_int :: "string \<Rightarrow> (int \<times> string) option" where
  "dec_int s =
     (case s of
        [] \<Rightarrow> None
      | c # s' \<Rightarrow>
          if c = CHR ''-'' then map_option (\<lambda>(n, r). (- n, r)) (dec_nat s')
          else dec_nat s)"

definition dec_str :: "string \<Rightarrow> (string \<times> string) option" where
  "dec_str s =
     (case dec_nat s of
        None \<Rightarrow> None
      | Some (n, r) \<Rightarrow> if int (length r) < n then None else Some (take (nat n) r, drop (nat n) r))"

definition demo_gob_Encode :: "leaderboardRecordListCursor \<Rightarrow> string" where
  "demo_gob_Encode c =
     (if IsNext c then ''n'' else ''p'') @ enc_str (LeaderboardId c) @ enc_int (ExpiryTime c) @
     enc_int (Score c) @ enc_int (Subscore c) @ enc_str (OwnerId c) @ enc_int (Rank c)"

definition demo_gob_Decode :: "string \<Rightarrow> leaderboardRecordListCursor option" where
  "demo_gob_Decode s =
     (case s of
        [] \<Rightarrow> None
      | f # s0 \<Rightarrow>
          if f = CHR ''n'' \<or> f = CHR ''p'' then
            (case dec_str s0 of None \<Rightarrow> None | Some (lid, s1) \<Rightarrow>
             case dec_int s1 of None \<Rightarrow> None | Some (exp, s2) \<Rightarrow>
             case dec_int s2 of None \<Rightarrow> None | Some (sc, s3) \<Rightarrow>
             case dec_int s3 of None \<Rightarrow> None | Some (ss, s4) \<Rightarrow>
             case dec_str s4 of None \<Rightarrow> None | Some (own, s5) \<Rightarrow>
             case dec_int s5 of None \<Rightarrow> None | Some (rk, s6) \<Rightarrow>
               if s6 = [] then
                 Some \<lparr>IsNext = (f = CHR ''n''), LeaderboardId = lid, ExpiryTime = exp, Score = sc,
                       Subscore = ss, OwnerId = own, Rank = rk\<rparr>
               else None)
          else None)"

definition demo_cursor :: leaderboardRecordListCursor where
  "demo_cursor = \<lparr>IsNext = True, LeaderboardId = ''lb'', ExpiryTime = 0, Score = 20,
     Subscore = 0, OwnerId = ''b'', Rank = 2\<rparr>"

definition url_safe :: "char \<Rightarrow> bool" where
  "url_safe c = (c \<in> set ''ABCDEFGHIJKLMNOPQRSTUVWXYZabcdefghijklmnopqrstuvwxyz0123456789-_='')"

definition demo_codec :: codec where
  "demo_codec =
     \<lparr>gob_Encode = (\<lambda>c. Some (demo_gob_Encode c)),
      gob_Decode = demo_gob_Decode,
      base64_EncodeToString = (\<lambda>bs. bs),
      base64_DecodeString = (\<lambda>s. if list_all url_safe s then Some s else None)\<rparr>"

subsection \<open>Times, durations and reset schedules\<close>

text \<open>
  \<open>int64\<close> arithmetic wraps, and a conversion to \<open>int32\<close> truncates. Go's integer
  division truncates towards zero, and the remainder has the sign of the dividend.
\<close>

definition wrap64 :: "int \<Rightarrow> int" where
  "wrap64 x = (x + 2 ^ 63) mod 2 ^ 64 - 2 ^ 63"

definition wrap32 :: "int \<Rightarrow> int" where
  "wrap32 x = (x + 2 ^ 31) mod 2 ^ 32 - 2 ^ 31"

definition go_div :: "int \<Rightarrow> int \<Rightarrow> int" where
  "go_div a b = sgn a * sgn b * (\<bar>a\<bar> div \<bar>b\<bar>)"

definition go_mod :: "int \<Rightarrow> int \<Rightarrow> int" where
  "go_mod a b = a - go_div a b * b"

text \<open>
  A \<open>time.Time\<close> without a monotonic clock reading, as \<open>time.Unix\<close> and \<open>time.Date\<close> make
  them: an \<open>int64\<close> count of seconds since January 1 of year 1 and the nanoseconds within
  that second. The Unix epoch is second \<open>unixToInternal\<close>. A \<open>time.Duration\<close> is an
  \<open>int64\<close> count of nanoseconds.
\<close>

record Time =
  tm_sec :: int
  tm_nsec :: int

definition unixToInternal :: int where
  "unixToInternal = 62135596800"

definition maxDuration :: int where
  "maxDuration = 2 ^ 63 - 1"

definition minDuration :: int where
  "minDuration = - (2 ^ 63)"

text \<open>
  \<open>time.Unix(sec, nsec)\<close>: the nanoseconds are brought into \<open>[0, 999999999]\<close>, then the
  seconds are moved to the internal epoch in \<open>int64\<close>, which wraps for
  \<open>sec > 2^63 - 1 - unixToInternal\<close>.
\<close>

definition time_Unix :: "int \<Rightarrow> int \<Rightarrow> Time" where
  "time_Unix sec nsec =
     (if nsec < 0 \<or> 1000000000 \<le> nsec then
        (let n = go_div nsec 1000000000;
             sec1 = wrap64 (sec + n);
             nsec1 = nsec - n * 1000000000
         in if nsec1 < 0
            then \<lparr>tm_sec = wrap64 (wrap64 (sec1 - 1) + unixToInternal), tm_nsec = nsec1 + 1000000000\<rparr>
            else \<lparr>tm_sec = wrap64 (sec1 + unixToInternal), tm_nsec = nsec1\<rparr>)
      else \<lparr>tm_sec = wrap64 (sec + unixToInternal), tm_nsec = nsec\<rparr>)"

text \<open>\<open>t.Unix()\<close>: the seconds since the Unix epoch.\<close>

definition Unix :: "Time \<Rightarrow> int" where
  "Unix t = wrap64 (tm_sec t - unixToInternal)"

definition time_Before :: "Time \<Rightarrow> Time \<Rightarrow> bool" where
  "time_Before t u = (tm_sec t < tm_sec u \<or> (tm_sec t = tm_sec u \<and> tm_nsec t < tm_nsec u))"

definition time_Equal :: "Time \<Rightarrow> Time \<Rightarrow> bool" where
  "time_Equal t u = (tm_sec t = tm_sec u \<and> tm_nsec t = tm_nsec u)"

text \<open>\<open>addSec\<close> adds seconds and stops at the ends of \<open>int64\<close> instead of wrapping.\<close>

definition addSec :: "int \<Rightarrow> int \<Rightarrow> int" where
  "addSec ext d =
     (let sum = wrap64 (ext + d) in
      if (ext < sum) = (0 < d) then sum
      else if 0 < d then 2 ^ 63 - 1
      else - (2 ^ 63 - 1))"

definition time_Add :: "Time \<Rightarrow> int \<Rightarrow> Time" where
  "time_Add t d =
     (let dsec = go_div d 1000000000;
          nsec = tm_nsec t + go_mod d 1000000000
      in if 1000000000 \<le> nsec then \<lparr>tm_sec = addSec (tm_sec t) (dsec + 1), tm_nsec = nsec - 1000000000\<rparr>
         else if nsec < 0 then \<lparr>tm_sec = addSec (tm_sec t) (dsec - 1), tm_nsec = nsec + 1000000000\<rparr>
         else \<lparr>tm_sec = addSec (tm_sec t) dsec, tm_nsec = nsec\<rparr>)"

text \<open>
  \<open>t.Sub(u)\<close> computes the difference in \<open>int64\<close> and, when adding it back to \<open>u\<close> does not
  give \<open>t\<close>, returns the smallest or the largest duration.
\<close>

definition time_Sub :: "Time \<Rightarrow> Time \<Rightarrow> int" where
  "time_Sub t u =
     (let d = wrap64 (wrap64 (wrap64 (tm_sec t - tm_sec u) * 1000000000) + (tm_nsec t - tm_nsec u))
      in if time_Equal (time_Add u d) t then d
         else if time_Before t u then minDuration
         else maxDuration)"

text \<open>
  The instant of a time in nanoseconds since the Unix epoch, as a mathematical integer; and
  the times whose nanoseconds are in range and whose seconds are far from the ends of
  \<open>int64\<close> (every date of a calendar is).
\<close>

definition unix_nanos :: "Time \<Rightarrow> int" where
  "unix_nanos t = (tm_sec t - unixToInternal) * 1000000000 + tm_nsec t"

definition plain_Time :: "Time \<Rightarrow> bool" where
  "plain_Time t =
     (0 \<le> tm_nsec t \<and> tm_nsec t < 1000000000 \<and> - (2 ^ 62) \<le> tm_sec t \<and> tm_sec t < 2 ^ 62)"

text \<open>
  \<open>internal/cronexpr\<close> is not among the sources: a schedule is the pair of its two
  methods the engine calls. \<open>NextN t n\<close> returns at most \<open>n\<close> instants.
\<close>

record cronexpr_Expression =
  Next :: "Time \<Rightarrow> Time"
  NextN :: "Time \<Rightarrow> nat \<Rightarrow> Time list"

definition calculatePrevReset ::
  "Time \<Rightarrow> int \<Rightarrow> cronexpr_Expression option \<Rightarrow> error + int" where
  "calculatePrevReset currentTime startTime resetSchedule =
     (case resetSchedule of
        None \<Rightarrow> Inr 0
      | Some E \<Rightarrow>
          (let nextResets = NextN E currentTime 2 in
           if length nextResets < 2 then Inl Panic
           else
             (let t1 = nextResets ! 0;
                  t2 = nextResets ! 1;
                  resetPeriod = time_Sub t2 t1;
                  prevReset = time_Add t1 (wrap64 (resetPeriod * - 1))
              in if time_Before prevReset (time_Unix startTime 0) then Inr 0
                 else Inr (Unix prevReset))))"

text \<open>
  A schedule that resets at every whole multiple of \<open>period\<close> seconds, and a schedule with
  a single reset, at \<open>s\<close> seconds after the Unix epoch.
\<close>

definition demo_schedule :: "int \<Rightarrow> cronexpr_Expression" where
  "demo_schedule period =
     \<lparr>Next = (\<lambda>t. time_Unix ((Unix t div period + 1) * period) 0),
      NextN = (\<lambda>t n. map (\<lambda>k. time_Unix ((Unix t div period + 1 + int k) * period) 0) [0..<n])\<rparr>"

definition demo_schedule_once :: "int \<Rightarrow> cronexpr_Expression" where
  "demo_schedule_once s =
     \<lparr>Next = (\<lambda>t. if Unix t < s then time_Unix s 0 else \<lparr>tm_sec = 0, tm_nsec = 0\<rparr>),
      NextN = (\<lambda>t n. if Unix t < s \<and> 0 < n then [time_Unix s 0] else [])\<rparr>"

subsection \<open>Leaderboard definitions\<close>

datatype sort_order = LeaderboardSortOrderAscending | LeaderboardSortOrderDescending

datatype operator =
    LeaderboardOperatorBest
  | LeaderboardOperatorSet
  | LeaderboardOperatorIncrement
  | LeaderboardOperatorDecrement

datatype api_Operator =
    Operator_NO_OVERRIDE
  | Operator_BEST
  | Operator_SET
  | Operator_INCREMENT
  | Operator_DECREMENT
  | Operator_UNRECOGNIZED int

text \<open>
  The \<open>Leaderboard\<close> struct is declared in the definition cache, which is not among the
  sources; these are the fields this file reads. Modelled from the spec: \<open>IsTournament\<close>
  is the definition's \<open>is_tournament\<close> capability flag (the method \<open>IsTournament()\<close>).
\<close>

record Leaderboard =
  Id :: string
  Authoritative :: bool
  SortOrder :: sort_order
  Operator :: operator
  ResetSchedule :: "cronexpr_Expression option"
  Metadata :: string
  CreateTime :: int
  StartTime :: int
  EndTime :: int
  Duration :: int
  IsTournament :: bool

subsection \<open>The record store\<close>

text \<open>
  The store is the table \<open>leaderboard_record\<close>, a list of rows; \<open>expiry_time\<close> and the
  other timestamps are epoch seconds. The statements of the source are modelled by what
  they select and change. The table's schema is not among the sources. Modelled from
  the spec: \<open>score\<close> and \<open>subscore\<close> are signed 64-bit columns, \<open>num_score\<close> is a signed
  32-bit column that a new row starts at 1, at most one row exists per
  \<open>(leaderboard_id, owner_id, expiry_time)\<close>, and \<open>owner_id\<close> is ordered as text. Arithmetic
  that leaves a column's range fails the statement (the store reports an error and
  changes nothing); \<open>create_time\<close> and \<open>update_time\<close> of a new row are the store's clock;
  the normalisation of metadata by the store's JSON type and transient store failures are
  outside the model.
\<close>

record leaderboard_record =
  leaderboard_id :: string
  owner_id :: string
  username :: "string option"
  score :: int
  subscore :: int
  num_score :: int
  max_num_score :: int
  metadata :: string
  create_time :: int
  update_time :: int
  expiry_time :: int

definition in_int64 :: "int \<Rightarrow> bool" where
  "in_int64 x = (- (2 ^ 63) \<le> x \<and> x < 2 ^ 63)"

definition in_int32 :: "int \<Rightarrow> bool" where
  "in_int32 x = (- (2 ^ 31) \<le> x \<and> x < 2 ^ 31)"

text \<open>
  The \<open>SET\<close> clause \<open>opSQL\<close> of the upsert: the new score and subscore of an existing row,
  or \<open>None\<close> when a sum or difference leaves the column's range. \<open>p4\<close>, \<open>p5\<close>, \<open>p8\<close>, \<open>p9\<close>
  are the statement's parameters \<open>$4\<close>, \<open>$5\<close>, \<open>$8\<close>, \<open>$9\<close>.
\<close>

definition opSQL ::
  "operator \<Rightarrow> sort_order \<Rightarrow> leaderboard_record \<Rightarrow> int \<Rightarrow> int \<Rightarrow> int \<Rightarrow> int \<Rightarrow> (int \<times> int) option" where
  "opSQL operator sortOrder r p4 p5 p8 p9 =
     (case operator of
        LeaderboardOperatorIncrement \<Rightarrow>
          (if in_int64 (score r + p8) \<and> in_int64 (subscore r + p9)
           then Some (score r + p8, subscore r + p9) else None)
      | LeaderboardOperatorDecrement \<Rightarrow>
          (if in_int64 (score r - p8) \<and> in_int64 (subscore r - p9)
           then Some (max (score r - p8) 0, max (subscore r - p9) 0) else None)
      | LeaderboardOperatorSet \<Rightarrow> Some (p4, p5)
      | LeaderboardOperatorBest \<Rightarrow>
          (if sortOrder = LeaderboardSortOrderAscending
           then Some (min (score r) p4, min (subscore r) p5)
           else Some (max (score r) p4, max (subscore r) p5)))"

text \<open>The \<open>WHERE\<close> clause \<open>filterSQL\<close> of the upsert's \<open>DO UPDATE\<close>.\<close>

definition filterSQL ::
  "operator \<Rightarrow> sort_order \<Rightarrow> leaderboard_record \<Rightarrow> int \<Rightarrow> int \<Rightarrow> int \<Rightarrow> int \<Rightarrow> bool" where
  "filterSQL operator sortOrder r p4 p5 p8 p9 =
     (case operator of
        LeaderboardOperatorIncrement \<Rightarrow> p8 \<noteq> 0 \<or> p9 \<noteq> 0
      | LeaderboardOperatorDecrement \<Rightarrow> p8 \<noteq> 0 \<or> p9 \<noteq> 0
      | LeaderboardOperatorSet \<Rightarrow> score r \<noteq> p4 \<or> subscore r \<noteq> p5
      | LeaderboardOperatorBest \<Rightarrow>
          (if sortOrder = LeaderboardSortOrderAscending
           then score r > p4 \<or> subscore r > p5
           else score r < p4 \<or> subscore r < p5))"

definition conflicts :: "string \<Rightarrow> string \<Rightarrow> int \<Rightarrow> leaderboard_record \<Rightarrow> bool" where
  "conflicts p1 p2 p7 r = (owner_id r = p2 \<and> leaderboard_id r = p1 \<and> expiry_time r = p7)"

datatype upsert_result =
    Returned leaderboard_record "leaderboard_record list"
  | NoRows
  | StoreError

text \<open>
  \<open>INSERT ... ON CONFLICT (owner_id, leaderboard_id, expiry_time) DO UPDATE SET ... WHERE
  ... RETURNING ...\<close>: without a conflicting row the new row is inserted and returned; a
  conflicting row that passes the filter is updated and returned; one that does not is
  left alone and no row is returned.
\<close>

definition sql_upsert ::
  "int \<Rightarrow> int \<Rightarrow> operator \<Rightarrow> sort_order \<Rightarrow> string \<Rightarrow> string \<Rightarrow> string option \<Rightarrow> int \<Rightarrow> int \<Rightarrow>
   string option \<Rightarrow> int \<Rightarrow> int \<Rightarrow> int \<Rightarrow> leaderboard_record list \<Rightarrow> upsert_result" where
  "sql_upsert now maxNumScore operator sortOrder p1 p2 p3 p4 p5 p6 p7 p8 p9 tbl =
     (case find (conflicts p1 p2 p7) tbl of
        None \<Rightarrow>
          (let r = \<lparr>leaderboard_id = p1, owner_id = p2, username = p3, score = p4,
                    subscore = p5, num_score = 1, max_num_score = maxNumScore,
                    metadata = (case p6 of None \<Rightarrow> ''{}'' | Some m \<Rightarrow> m),
                    create_time = now, update_time = now, expiry_time = p7\<rparr>
           in Returned r (tbl @ [r]))
      | Some old \<Rightarrow>
          (if filterSQL operator sortOrder old p4 p5 p8 p9 then
             (case opSQL operator sortOrder old p4 p5 p8 p9 of
                None \<Rightarrow> StoreError
              | Some (s, ss) \<Rightarrow>
                  if in_int32 (num_score old + 1) then
                    (let r = old\<lparr>score := s, subscore := ss, num_score := num_score old + 1,
                                metadata := (case p6 of None \<Rightarrow> metadata old | Some m \<Rightarrow> m),
                                username := (case p3 of None \<Rightarrow> username old | Some u \<Rightarrow> Some u),
                                update_time := now\<rparr>
                     in Returned r (map (\<lambda>x. if conflicts p1 p2 p7 x then r else x) tbl))
                  else StoreError)
           else NoRows))"

subsection \<open>The world around the engine\<close>

datatype event =
    DbUpsertRecord
  | DbSelectRecord
  | DbSelectPage
  | DbSelectOwners
  | DbSelectHaystack
  | DbDeleteRecord
  | RankCacheGet
  | RankCacheInsert
  | RankCacheDelete
  | RankCacheFill

text \<open>
  The state the engine works on: the table, the rank index (of an arbitrary type
  \<open>'rc\<close>), and the trace of every round trip to the store and every call of the rank
  index, in order. A call that leaves the trace as it was made no such round trip.
\<close>

record 'rc world =
  table :: "leaderboard_record list"
  rankCache :: 'rc
  trace :: "event list"

record api_LeaderboardRecord =
  rec_LeaderboardId :: string
  rec_OwnerId :: string
  rec_Username :: "string option"
  rec_Score :: int
  rec_Subscore :: int
  rec_NumScore :: int
  rec_MaxNumScore :: int
  rec_Metadata :: string
  rec_CreateTime :: int
  rec_UpdateTime :: int
  rec_ExpiryTime :: "int option"
  rec_Rank :: int

text \<open>
  The collaborators of the engine, none of them among the sources: the definition
  cache's \<open>Get\<close>, the clocks of the process and of the store, the cursor codec's
  libraries, \<open>uuid.FromString\<close> (\<open>None\<close> when the text is no UUID; a \<open>uuid.UUID\<close> is its
  canonical text), the rank index, the tournament deadline helper and the schema's
  default for \<open>max_num_score\<close>. Modelled from the spec: \<open>rankCache_Fill\<close> mutates the rank
  field of each record, so it is given by the rank it writes to one record.
\<close>

record 'rc env =
  leaderboardCache_Get :: "string \<Rightarrow> Leaderboard option"
  time_Now :: Time
  sql_now :: int
  cursor_codec :: codec
  uuid_FromString :: "string \<Rightarrow> string option"
  rankCache_Get :: "'rc \<Rightarrow> string \<Rightarrow> int \<Rightarrow> string \<Rightarrow> int"
  rankCache_Insert :: "'rc \<Rightarrow> string \<Rightarrow> int \<Rightarrow> sort_order \<Rightarrow> string \<Rightarrow> int \<Rightarrow> int \<Rightarrow> int \<times> 'rc"
  rankCache_Delete :: "'rc \<Rightarrow> string \<Rightarrow> int \<Rightarrow> string \<Rightarrow> 'rc"
  rankCache_Fill :: "'rc \<Rightarrow> string \<Rightarrow> int \<Rightarrow> api_LeaderboardRecord \<Rightarrow> int"
  calculateTournamentDeadlines :: "int \<Rightarrow> int \<Rightarrow> int \<Rightarrow> cronexpr_Expression option \<Rightarrow> Time \<Rightarrow> int \<times> int \<times> int"
  default_max_num_score :: int

definition uuid_Nil :: string where
  "uuid_Nil = ''00000000-0000-0000-0000-000000000000''"

definition uint32 :: "int \<Rightarrow> int" where
  "uint32 x = x mod 2 ^ 32"

subsection \<open>Writing and deleting a record\<close>

text \<open>The expiry a write or delete binds to: the schedule's next reset, or 0.\<close>

definition write_expiry :: "'rc env \<Rightarrow> Leaderboard \<Rightarrow> int" where
  "write_expiry E leaderboard =
     (case ResetSchedule leaderboard of
        None \<Rightarrow> 0
      | Some S \<Rightarrow> Unix (Next S (time_Now E)))"

text \<open>The effective operator; \<open>None\<close> is the \<open>default\<close> branch returning \<open>ErrInvalidOperator\<close>.\<close>

definition effective_operator :: "Leaderboard \<Rightarrow> api_Operator \<Rightarrow> operator option" where
  "effective_operator leaderboard overrideOperator =
     (case overrideOperator of
        Operator_NO_OVERRIDE \<Rightarrow> Some (Operator leaderboard)
      | Operator_INCREMENT \<Rightarrow> Some LeaderboardOperatorIncrement
      | Operator_SET \<Rightarrow> Some LeaderboardOperatorSet
      | Operator_BEST \<Rightarrow> Some LeaderboardOperatorBest
      | Operator_DECREMENT \<Rightarrow> Some LeaderboardOperatorDecrement
      | Operator_UNRECOGNIZED _ \<Rightarrow> None)"

text \<open>The switch on the operator: \<open>(scoreDelta, subscoreDelta, scoreAbs, subscoreAbs)\<close>.\<close>

definition write_params :: "operator \<Rightarrow> int \<Rightarrow> int \<Rightarrow> int \<times> int \<times> int \<times> int" where
  "write_params operator scoreArg subscoreArg =
     (case operator of
        LeaderboardOperatorIncrement \<Rightarrow> (scoreArg, subscoreArg, scoreArg, subscoreArg)
      | LeaderboardOperatorDecrement \<Rightarrow> (scoreArg, subscoreArg, 0, 0)
      | LeaderboardOperatorSet \<Rightarrow> (scoreArg, subscoreArg, scoreArg, subscoreArg)
      | LeaderboardOperatorBest \<Rightarrow> (scoreArg, subscoreArg, scoreArg, subscoreArg))"

text \<open>
  The end of \<open>LeaderboardRecordWrite\<close>, from the rank lookup on. \<open>uuid.Must\<close> panics on
  an owner id that is no UUID, after the store has been written.
\<close>

definition write_finish ::
  "'rc env \<Rightarrow> Leaderboard \<Rightarrow> string \<Rightarrow> string \<Rightarrow> int \<Rightarrow> bool \<Rightarrow> leaderboard_record \<Rightarrow> 'rc world \<Rightarrow>
   (error + api_LeaderboardRecord) \<times> 'rc world" where
  "write_finish E leaderboard leaderboardId ownerID expiryTime unchanged r w =
     (case uuid_FromString E ownerID of
        None \<Rightarrow> (Inl Panic, w)
      | Some u \<Rightarrow>
          (let (rank, w') =
                 (if unchanged
                  then (rankCache_Get E (rankCache w) leaderboardId expiryTime u,
                        w\<lparr>trace := trace w @ [RankCacheGet]\<rparr>)
                  else (let (rk, rc') = rankCache_Insert E (rankCache w) leaderboardId expiryTime
                                          (SortOrder leaderboard) u (score r) (subscore r)
                        in (rk, w\<lparr>rankCache := rc', trace := trace w @ [RankCacheInsert]\<rparr>)))
           in (Inr \<lparr>rec_LeaderboardId = leaderboardId, rec_OwnerId = ownerID,
                     rec_Username = username r, rec_Score = score r, rec_Subscore = subscore r,
                     rec_NumScore = num_score r, rec_MaxNumScore = uint32 (max_num_score r),
                     rec_Metadata = metadata r, rec_CreateTime = create_time r,
                     rec_UpdateTime = update_time r,
                     rec_ExpiryTime = (if expiryTime = 0 then None else Some expiryTime),
                     rec_Rank = rank\<rparr>, w')))"

definition LeaderboardRecordWrite ::
  "'rc env \<Rightarrow> string \<Rightarrow> string \<Rightarrow> string \<Rightarrow> string \<Rightarrow> int \<Rightarrow> int \<Rightarrow> string \<Rightarrow> api_Operator \<Rightarrow> 'rc world \<Rightarrow>
   (error + api_LeaderboardRecord) \<times> 'rc world" where
  "LeaderboardRecordWrite E caller leaderboardId ownerID usernameArg scoreArg subscoreArg metadataArg
     overrideOperator w =
     (case leaderboardCache_Get E leaderboardId of
        None \<Rightarrow> (Inl ErrLeaderboardNotFound, w)
      | Some leaderboard \<Rightarrow>
          if Authoritative leaderboard \<and> caller \<noteq> uuid_Nil then (Inl ErrLeaderboardAuthoritative, w)
          else
            (let expiryTime = write_expiry E leaderboard in
             case effective_operator leaderboard overrideOperator of
               None \<Rightarrow> (Inl ErrInvalidOperator, w)
             | Some operator \<Rightarrow>
                 (let (scoreDelta, subscoreDelta, scoreAbs, subscoreAbs) =
                        write_params operator scoreArg subscoreArg;
                      p3 = (if usernameArg = [] then None else Some usernameArg);
                      p6 = (if metadataArg = [] then None else Some metadataArg)
                  in case sql_upsert (sql_now E) (default_max_num_score E) operator
                            (SortOrder leaderboard) leaderboardId ownerID p3 scoreAbs subscoreAbs p6
                            expiryTime scoreDelta subscoreDelta (table w) of
                       StoreError \<Rightarrow> (Inl ErrStore, w\<lparr>trace := trace w @ [DbUpsertRecord]\<rparr>)
                     | Returned r tbl \<Rightarrow>
                         write_finish E leaderboard leaderboardId ownerID expiryTime False r
                           (w\<lparr>table := tbl, trace := trace w @ [DbUpsertRecord]\<rparr>)
                     | NoRows \<Rightarrow>
                         (case find (\<lambda>r. leaderboard_id r = leaderboardId \<and> owner_id r = ownerID \<and>
                                          expiry_time r = expiryTime) (table w) of
                            None \<Rightarrow>
                              (Inl ErrStore, w\<lparr>trace := trace w @ [DbUpsertRecord, DbSelectRecord]\<rparr>)
                          | Some r \<Rightarrow>
                              write_finish E leaderboard leaderboardId ownerID expiryTime True r
                                (w\<lparr>trace := trace w @ [DbUpsertRecord, DbSelectRecord]\<rparr>)))))"

definition LeaderboardRecordDelete ::
  "'rc env \<Rightarrow> string \<Rightarrow> string \<Rightarrow> string \<Rightarrow> 'rc world \<Rightarrow> error option \<times> 'rc world" where
  "LeaderboardRecordDelete E caller leaderboardId ownerID w =
     (case leaderboardCache_Get E leaderboardId of
        None \<Rightarrow> (Some ErrLeaderboardNotFound, w)
      | Some leaderboard \<Rightarrow>
          if Authoritative leaderboard \<and> caller \<noteq> uuid_Nil then (Some ErrLeaderboardAuthoritative, w)
          else
            (let expiryTime = write_expiry E leaderboard;
                 w1 = w\<lparr>table := filter (\<lambda>r. \<not> (leaderboard_id r = leaderboardId \<and>
                                                  owner_id r = ownerID \<and> expiry_time r = expiryTime))
                                      (table w),
                        trace := trace w @ [DbDeleteRecord]\<rparr>
             in case uuid_FromString E ownerID of
                  None \<Rightarrow> (Some Panic, w1)
                | Some u \<Rightarrow>
                    (None, w1\<lparr>rankCache := rankCache_Delete E (rankCache w1) leaderboardId expiryTime u,
                              trace := trace w1 @ [RankCacheDelete]\<rparr>)))"

subsection \<open>A concrete world\<close>

text \<open>
  Concrete collaborators to run the model on: four leaderboards without a schedule, a
  rank index that ranks owners in the order they were inserted, and a UUID parser that
  accepts every non-empty text.
\<close>

definition demo_leaderboard :: "string \<Rightarrow> bool \<Rightarrow> sort_order \<Rightarrow> operator \<Rightarrow> Leaderboard" where
  "demo_leaderboard i a so opr =
     \<lparr>Id = i, Authoritative = a, SortOrder = so, Operator = opr, ResetSchedule = None,
      Metadata = ''{}'', CreateTime = 0, StartTime = 0, EndTime = 0, Duration = 0,
      IsTournament = False\<rparr>"

definition demo_leaderboards :: "(string \<times> Leaderboard) list" where
  "demo_leaderboards =
     [(''lb'', demo_leaderboard ''lb'' False LeaderboardSortOrderDescending LeaderboardOperatorBest),
      (''asc'', demo_leaderboard ''asc'' False LeaderboardSortOrderAscending LeaderboardOperatorBest),
      (''auth'', demo_leaderboard ''auth'' True LeaderboardSortOrderDescending LeaderboardOperatorBest),
      (''inc'', demo_leaderboard ''inc'' False LeaderboardSortOrderDescending LeaderboardOperatorIncrement),
      (''dec'', demo_leaderboard ''dec'' False LeaderboardSortOrderDescending LeaderboardOperatorDecrement)]"

fun index_of :: "string \<Rightarrow> string list \<Rightarrow> int" where
  "index_of x [] = 0"
| "index_of x (y # ys) = (if x = y then 1 else (if index_of x ys = 0 then 0 else 1 + index_of x ys))"

definition demo_env :: "string list env" where
  "demo_env =
     \<lparr>leaderboardCache_Get = map_of demo_leaderboards,
      time_Now = time_Unix 1000 0,
      sql_now = 1000,
      cursor_codec = demo_codec,
      uuid_FromString = (\<lambda>s. if s = [] then None else Some s),
      rankCache_Get = (\<lambda>rc lid exp u. index_of u rc),
      rankCache_Insert = (\<lambda>rc lid exp so u s ss.
         if u \<in> set rc then (index_of u rc, rc) else (int (length rc) + 1, rc @ [u])),
      rankCache_Delete = (\<lambda>rc lid exp u. filter (\<lambda>x. x \<noteq> u) rc),
      rankCache_Fill = (\<lambda>rc lid exp r. index_of (rec_OwnerId r) rc),
      calculateTournamentDeadlines = (\<lambda>st en du sch now. (0, 0, 0)),
      default_max_num_score = 1000000\<rparr>"

definition demo_row :: "string \<Rightarrow> string \<Rightarrow> int \<Rightarrow> int \<Rightarrow> leaderboard_record" where
  "demo_row lid own s ss =
     \<lparr>leaderboard_id = lid, owner_id = own, username = None, score = s, subscore = ss,
      num_score = 1, max_num_score = 1000000, metadata = ''{}'', create_time = 900,
      update_time = 900, expiry_time = 0\<rparr>"

definition demo_world :: "leaderboard_record list \<Rightarrow> string list world" where
  "demo_world rows = \<lparr>table = rows, rankCache = map owner_id rows, trace = []\<rparr>"

subsection \<open>Listing records\<close>

record api_LeaderboardRecordList =
  Records :: "api_LeaderboardRecord list"
  OwnerRecords :: "api_LeaderboardRecord list"
  NextCursor :: string
  PrevCursor :: string

definition calculateExpiryOverride :: "'rc env \<Rightarrow> int \<Rightarrow> Leaderboard \<Rightarrow> int \<times> bool" where
  "calculateExpiryOverride E overrideExpiry leaderboard =
     (if overrideExpiry = 0 then
        (if IsTournament leaderboard then
           (let now = time_Now E;
                (startActive, endActive, expiryTime) =
                   calculateTournamentDeadlines E (StartTime leaderboard) (EndTime leaderboard)
                     (Duration leaderboard) (ResetSchedule leaderboard) now
            in if expiryTime \<noteq> 0 \<and> expiryTime \<le> Unix now then (0, False)
               else (expiryTime, True))
         else
           (case ResetSchedule leaderboard of
              Some S \<Rightarrow> (Unix (Next S (time_Now E)), True)
            | None \<Rightarrow> (overrideExpiry, True)))
      else (overrideExpiry, True))"

text \<open>
  The ordering of the store's index: rows by \<open>(score, subscore, owner_id)\<close>, ascending or
  descending. Within one leaderboard and expiry no two rows share a key.
\<close>

definition row_key :: "leaderboard_record \<Rightarrow> int \<times> int \<times> string" where
  "row_key r = (score r, subscore r, owner_id r)"

definition order_asc :: "leaderboard_record list \<Rightarrow> leaderboard_record list" where
  "order_asc rows = sort_key row_key rows"

definition order_desc :: "leaderboard_record list \<Rightarrow> leaderboard_record list" where
  "order_desc rows = rev (sort_key row_key rows)"

text \<open>\<open>LIMIT n\<close>: a negative \<open>n\<close> fails the statement.\<close>

definition sql_limit :: "int \<Rightarrow> 'a list \<Rightarrow> 'a list option" where
  "sql_limit n rows = (if n < 0 then None else Some (take (nat n) rows))"

text \<open>
  The page query of \<open>LeaderboardRecordsList\<close>, with \<open>p1\<close>, \<open>p2\<close>, \<open>p3\<close> the parameters
  \<open>$1\<close>, \<open>$2\<close>, \<open>$3\<close>; \<open>$4\<close>, \<open>$5\<close>, \<open>$6\<close> are the cursor's score, subscore and owner.
\<close>

definition sql_select_page ::
  "sort_order \<Rightarrow> leaderboardRecordListCursor option \<Rightarrow> string \<Rightarrow> int \<Rightarrow> int \<Rightarrow>
   leaderboard_record list \<Rightarrow> leaderboard_record list option" where
  "sql_select_page sortOrder incomingCursor p1 p2 p3 tbl =
     sql_limit p3
       (case incomingCursor of
          None \<Rightarrow>
            (if sortOrder = LeaderboardSortOrderAscending
             then order_asc (filter (\<lambda>r. leaderboard_id r = p1 \<and> expiry_time r = p2) tbl)
             else order_desc (filter (\<lambda>r. leaderboard_id r = p1 \<and> expiry_time r = p2) tbl))
        | Some c \<Rightarrow>
            (if (sortOrder = LeaderboardSortOrderAscending \<and> IsNext c) \<or>
                (sortOrder = LeaderboardSortOrderDescending \<and> \<not> IsNext c)
             then order_asc (filter (\<lambda>r. leaderboard_id r = p1 \<and> expiry_time r = p2 \<and>
                      (leaderboard_id r, expiry_time r, score r, subscore r, owner_id r) >
                        (p1, p2, Score c, Subscore c, OwnerId c)) tbl)
             else order_desc (filter (\<lambda>r. leaderboard_id r = p1 \<and> expiry_time r = p2 \<and>
                      (leaderboard_id r, expiry_time r, score r, subscore r, owner_id r) <
                        (p1, p2, Score c, Subscore c, OwnerId c)) tbl)))"

text \<open>The record built from a scanned row in \<open>LeaderboardRecordsList\<close>.\<close>

definition list_record :: "string \<Rightarrow> int \<Rightarrow> int \<Rightarrow> leaderboard_record \<Rightarrow> api_LeaderboardRecord" where
  "list_record leaderboardId expiryTime rank row =
     \<lparr>rec_LeaderboardId = leaderboardId, rec_OwnerId = owner_id row,
      rec_Username = username row, rec_Score = score row, rec_Subscore = subscore row,
      rec_NumScore = num_score row, rec_MaxNumScore = uint32 (max_num_score row),
      rec_Metadata = metadata row, rec_CreateTime = create_time row,
      rec_UpdateTime = update_time row,
      rec_ExpiryTime = (if expiryTime = 0 then None else Some expiryTime),
      rec_Rank = rank\<rparr>"

text \<open>
  The state of the loop over the fetched rows. \<open>records\<close> is a slice of pointers: the
  records live in \<open>ll_heap\<close> and \<open>ll_records\<close> holds their addresses. The variables
  \<open>dbOwnerID\<close>, \<open>dbScore\<close> and \<open>dbSubscore\<close> keep the last scanned row between iterations.
\<close>

record list_loop =
  ll_heap :: "api_LeaderboardRecord list"
  ll_records :: "nat list"
  ll_rank :: int
  ll_nextCursor :: "leaderboardRecordListCursor option"
  ll_prevCursor :: "leaderboardRecordListCursor option"
  ll_dbOwnerID :: string
  ll_dbScore :: int
  ll_dbSubscore :: int

text \<open>
  One iteration of \<open>for rows.Next()\<close>. The source sets \<open>nextCursor\<close> once \<open>limitNumber\<close>
  records are held and goes on: it scans the row and appends its record all the same.
\<close>

definition list_row ::
  "string \<Rightarrow> int \<Rightarrow> int \<Rightarrow> leaderboardRecordListCursor option \<Rightarrow> list_loop \<Rightarrow> leaderboard_record \<Rightarrow>
   list_loop" where
  "list_row leaderboardId expiryTime limitNumber incomingCursor st row =
     (let st1 = (if int (length (ll_records st)) \<ge> limitNumber
                 then st\<lparr>ll_nextCursor :=
                        Some \<lparr>IsNext = True, LeaderboardId = leaderboardId,
                              ExpiryTime = expiryTime, Score = ll_dbScore st,
                              Subscore = ll_dbSubscore st, OwnerId = ll_dbOwnerID st,
                              Rank = ll_rank st\<rparr>\<rparr>
                 else st);
          rank = (case incomingCursor of
                    None \<Rightarrow> wrap64 (ll_rank st1 + 1)
                  | Some c \<Rightarrow> if IsNext c then wrap64 (ll_rank st1 + 1)
                              else wrap64 (ll_rank st1 - 1));
          record = list_record leaderboardId expiryTime rank row;
          prevCursor = (case incomingCursor of
                          None \<Rightarrow> ll_prevCursor st1
                        | Some c \<Rightarrow>
                            (case ll_prevCursor st1 of
                               None \<Rightarrow> Some \<lparr>IsNext = False, LeaderboardId = leaderboardId,
                                              ExpiryTime = expiryTime, Score = score row,
                                              Subscore = subscore row, OwnerId = owner_id row,
                                              Rank = rank\<rparr>
                             | Some p \<Rightarrow> Some p))
      in st1\<lparr>ll_heap := ll_heap st1 @ [record],
             ll_records := ll_records st1 @ [length (ll_heap st1)],
             ll_rank := rank,
             ll_prevCursor := prevCursor,
             ll_dbOwnerID := owner_id row,
             ll_dbScore := score row,
             ll_dbSubscore := subscore row\<rparr>)"

text \<open>
  The swap of two cursors behind pointers. Go evaluates the pointer operands on the left
  and every right-hand side first and assigns afterwards, left to right: the variable
  \<open>nextCursor\<close> ends up pointing to the old previous cursor, which has received the old
  next cursor's \<open>IsNext\<close> and \<open>Rank\<close>, and the other way round. The two cursors are
  distinct allocations.
\<close>

definition swap_cursors ::
  "leaderboardRecordListCursor option \<times> leaderboardRecordListCursor option \<Rightarrow>
   leaderboardRecordListCursor option \<times> leaderboardRecordListCursor option" where
  "swap_cursors np =
     (case np of
        (Some n, Some p) \<Rightarrow>
          (Some (p\<lparr>IsNext := IsNext n, Rank := Rank n\<rparr>), Some (n\<lparr>IsNext := IsNext p, Rank := Rank p\<rparr>))
      | (Some n, None) \<Rightarrow> (None, Some (n\<lparr>IsNext := \<not> IsNext n\<rparr>))
      | (None, Some p) \<Rightarrow> (Some (p\<lparr>IsNext := \<not> IsNext p\<rparr>), None)
      | (None, None) \<Rightarrow> (None, None))"

text \<open>
  One iteration of the reversal loop, the assignment
  \<open>records[i], records[i].Rank, records[j], records[j].Rank =
    records[j], records[j].Rank, records[i], records[i].Rank\<close>.
  First the operands on the left (the pointers \<open>records[i]\<close> and \<open>records[j]\<close> behind the
  two \<open>.Rank\<close> selectors) and the four values on the right are evaluated; then the four
  assignments are carried out from left to right.
\<close>

definition swap_step ::
  "nat \<Rightarrow> nat \<Rightarrow> nat list \<times> api_LeaderboardRecord list \<Rightarrow> nat list \<times> api_LeaderboardRecord list" where
  "swap_step i j s =
     (let (records, heap) = s;
          pi = records ! i;
          pj = records ! j;
          v1 = pj;
          v2 = rec_Rank (heap ! pj);
          v3 = pi;
          v4 = rec_Rank (heap ! pi);
          records1 = records[i := v1];
          heap1 = heap[pi := (heap ! pi)\<lparr>rec_Rank := v2\<rparr>];
          records2 = records1[j := v3];
          heap2 = heap1[pj := (heap1 ! pj)\<lparr>rec_Rank := v4\<rparr>]
      in (records2, heap2))"

function flip_loop ::
  "int \<Rightarrow> int \<Rightarrow> nat list \<times> api_LeaderboardRecord list \<Rightarrow> nat list \<times> api_LeaderboardRecord list" where
  "flip_loop i j s = (if i < j then flip_loop (i + 1) (j - 1) (swap_step (nat i) (nat j) s) else s)"
  by pat_completeness auto
termination
  by (relation "measure (\<lambda>(i, j, s). nat (j - i))") auto

declare flip_loop.simps [simp del]

text \<open>
  The slice and the heap after the first \<open>i\<close> iterations of the reversal loop over \<open>n\<close>
  records at the addresses \<open>0, ..., n - 1\<close>, with \<open>j = n - 1 - i\<close>.
\<close>

definition flipped_records :: "nat \<Rightarrow> nat \<Rightarrow> nat \<Rightarrow> nat list" where
  "flipped_records n i j = map (\<lambda>q. if q < i \<or> j < q then n - Suc q else q) [0..<n]"

definition flipped_heap ::
  "api_LeaderboardRecord list \<Rightarrow> nat \<Rightarrow> nat \<Rightarrow> api_LeaderboardRecord list" where
  "flipped_heap h i j =
     map (\<lambda>p. if p < i \<or> j < p then (h ! p)\<lparr>rec_Rank := rec_Rank (h ! (length h - Suc p))\<rparr> else h ! p)
       [0..<length h]"

text \<open>The step of the rank counter in the loop over the rows: up, or down for a previous cursor.\<close>

definition rank_step :: "leaderboardRecordListCursor option \<Rightarrow> int" where
  "rank_step ic = (case ic of None \<Rightarrow> 1 | Some c \<Rightarrow> if IsNext c then 1 else - 1)"

text \<open>
  The paginated part of \<open>LeaderboardRecordsList\<close>, after the rows have been fetched:
  the loop over the rows, the reversal for a previous cursor, and the two cursor strings.
\<close>

definition list_page ::
  "codec \<Rightarrow> string \<Rightarrow> int \<Rightarrow> int \<Rightarrow> leaderboardRecordListCursor option \<Rightarrow> leaderboard_record list \<Rightarrow>
   error + (api_LeaderboardRecord list \<times> string \<times> string)" where
  "list_page K leaderboardId expiryTime limitNumber incomingCursor rows =
     (let rank0 = (case incomingCursor of None \<Rightarrow> 0 | Some c \<Rightarrow> Rank c);
          st = foldl (list_row leaderboardId expiryTime limitNumber incomingCursor)
                 \<lparr>ll_heap = [], ll_records = [], ll_rank = rank0, ll_nextCursor = None,
                  ll_prevCursor = None, ll_dbOwnerID = [], ll_dbScore = 0, ll_dbSubscore = 0\<rparr>
                 rows;
          flip = (case incomingCursor of None \<Rightarrow> False | Some c \<Rightarrow> \<not> IsNext c);
          (nextCursor, prevCursor) =
             (if flip then swap_cursors (ll_nextCursor st, ll_prevCursor st)
              else (ll_nextCursor st, ll_prevCursor st));
          (records, heap) =
             (if flip then flip_loop 0 (int (length (ll_records st)) - 1) (ll_records st, ll_heap st)
              else (ll_records st, ll_heap st))
      in case (case nextCursor of None \<Rightarrow> Inr [] | Some c \<Rightarrow> marshalLeaderboardRecordsListCursor K c) of
           Inl e \<Rightarrow> Inl e
         | Inr nextCursorStr \<Rightarrow>
             (case (case prevCursor of None \<Rightarrow> Inr [] | Some c \<Rightarrow> marshalLeaderboardRecordsListCursor K c) of
                Inl e \<Rightarrow> Inl e
              | Inr prevCursorStr \<Rightarrow> Inr (map (\<lambda>p. heap ! p) records, nextCursorStr, prevCursorStr)))"

text \<open>
  \<open>LeaderboardRecordsList\<close>. Its \<open>limit\<close> is an optional \<open>int32\<close>; \<open>make\<close> panics on a
  negative capacity, which a limit of \<open>-1\<close> reaches (a smaller one fails the query before).
\<close>

definition LeaderboardRecordsList ::
  "'rc env \<Rightarrow> string \<Rightarrow> int option \<Rightarrow> string \<Rightarrow> string list \<Rightarrow> int \<Rightarrow> 'rc world \<Rightarrow>
   (error + api_LeaderboardRecordList) \<times> 'rc world" where
  "LeaderboardRecordsList E leaderboardId limit cursor ownerIds overrideExpiry w =
     (case leaderboardCache_Get E leaderboardId of
        None \<Rightarrow> (Inl ErrLeaderboardNotFound, w)
      | Some leaderboard \<Rightarrow>
          (let (expiryTime, recordsPossible) = calculateExpiryOverride E overrideExpiry leaderboard in
           if \<not> recordsPossible
           then (Inr \<lparr>Records = [], OwnerRecords = [], NextCursor = [], PrevCursor = []\<rparr>, w)
           else
             (case (case limit of
                      None \<Rightarrow> (Inr ([], [], []), w)
                    | Some limitValue \<Rightarrow>
                        (case unmarshalLeaderboardRecordsListCursor (cursor_codec E) leaderboardId
                                expiryTime cursor of
                           Inl e \<Rightarrow> (Inl e, w)
                         | Inr incomingCursor \<Rightarrow>
                             (case sql_select_page (SortOrder leaderboard) incomingCursor leaderboardId
                                     expiryTime (limitValue + 1) (table w) of
                                None \<Rightarrow> (Inl ErrStore, w\<lparr>trace := trace w @ [DbSelectPage]\<rparr>)
                              | Some rows \<Rightarrow>
                                  (if limitValue < 0 then Inl Panic
                                   else list_page (cursor_codec E) leaderboardId expiryTime
                                          limitValue incomingCursor rows,
                                   w\<lparr>trace := trace w @ [DbSelectPage]\<rparr>)))) of
                (Inl e, w1) \<Rightarrow> (Inl e, w1)
              | (Inr (records, nextCursorStr, prevCursorStr), w1) \<Rightarrow>
                  (let (ownerRecords, w2) =
                         (if ownerIds = [] then ([], w1)
                          else (map (list_record leaderboardId expiryTime 0)
                                  (filter (\<lambda>r. leaderboard_id r = leaderboardId \<and>
                                               expiry_time r = expiryTime \<and> owner_id r \<in> set ownerIds)
                                     (table w1)),
                                w1\<lparr>trace := trace w1 @ [DbSelectOwners]\<rparr>))
                   in (Inr \<lparr>Records = records,
                             OwnerRecords = map (\<lambda>r. r\<lparr>rec_Rank :=
                                 rankCache_Fill E (rankCache w2) leaderboardId expiryTime r\<rparr>) ownerRecords,
                             NextCursor = nextCursorStr, PrevCursor = prevCursorStr\<rparr>,
                       w2\<lparr>trace := trace w2 @ [RankCacheFill]\<rparr>)))))"

subsection \<open>The haystack\<close>

text \<open>The record \<open>parseLeaderboardRecords\<close> builds from a row; the rank is filled in later.\<close>

definition parse_record :: "leaderboard_record \<Rightarrow> api_LeaderboardRecord" where
  "parse_record row =
     \<lparr>rec_LeaderboardId = leaderboard_id row, rec_OwnerId = owner_id row,
      rec_Username = username row, rec_Score = score row, rec_Subscore = subscore row,
      rec_NumScore = num_score row, rec_MaxNumScore = uint32 (max_num_score row),
      rec_Metadata = metadata row, rec_CreateTime = create_time row,
      rec_UpdateTime = update_time row,
      rec_ExpiryTime = (if expiry_time row = 0 then None else Some (expiry_time row)),
      rec_Rank = 0\<rparr>"

text \<open>
  The two side queries: the rows of the leaderboard and expiry whose key is strictly
  greater (ascending order) or strictly less (descending order) than
  \<open>($3, $4, $5)\<close>, cut at \<open>LIMIT $6\<close>.
\<close>

definition sql_select_haystack ::
  "bool \<Rightarrow> string \<Rightarrow> int \<Rightarrow> int \<Rightarrow> int \<Rightarrow> string \<Rightarrow> int \<Rightarrow> leaderboard_record list \<Rightarrow>
   leaderboard_record list option" where
  "sql_select_haystack isGreater p1 p2 p3 p4 p5 p6 tbl =
     sql_limit p6
       (if isGreater
        then order_asc (filter (\<lambda>r. leaderboard_id r = p1 \<and> expiry_time r = p2 \<and>
                 (score r, subscore r, owner_id r) > (p3, p4, p5)) tbl)
        else order_desc (filter (\<lambda>r. leaderboard_id r = p1 \<and> expiry_time r = p2 \<and>
                 (score r, subscore r, owner_id r) < (p3, p4, p5)) tbl))"

text \<open>
  \<open>if len(xs) > lim { set = true; xs = xs[:len(xs)-1] }\<close>; the slice expression panics on
  an empty \<open>xs\<close>.
\<close>

definition drop_overflow :: "int \<Rightarrow> 'a list \<Rightarrow> error + (bool \<times> 'a list)" where
  "drop_overflow lim xs =
     (if int (length xs) > lim
      then (if xs = [] then Inl Panic else Inr (True, butlast xs))
      else Inr (False, xs))"

text \<open>The window \<open>records[start:end]\<close>; the slice expression panics when \<open>start > end\<close>.\<close>

definition haystack_window :: "int \<Rightarrow> int \<Rightarrow> 'a list \<Rightarrow> error + 'a list" where
  "haystack_window limit lenFirst records =
     (let numRecords = int (length records);
          start0 = wrap64 (numRecords - limit);
          start = (if start0 < 0 \<or> lenFirst < go_div limit 2 then 0 else start0);
          end0 = wrap64 (start + limit);
          end1 = (if end0 > numRecords then numRecords else end0)
      in if start \<le> end1 \<and> 0 \<le> end1 then Inr (take (nat (end1 - start)) (drop (nat start) records))
         else Inl Panic)"

definition haystack_cursor ::
  "codec \<Rightarrow> int \<Rightarrow> bool \<Rightarrow> api_LeaderboardRecord \<Rightarrow> error + string" where
  "haystack_cursor K expiryTime isNext r =
     marshalLeaderboardRecordsListCursor K
       \<lparr>IsNext = isNext, LeaderboardId = rec_LeaderboardId r, ExpiryTime = expiryTime,
        Score = rec_Score r, Subscore = rec_Subscore r, OwnerId = rec_OwnerId r,
        Rank = rec_Rank r\<rparr>"

text \<open>
  The two sides around the owner's record and the window over them: the records of the
  window, \<open>setNextCursor\<close> and \<open>setPrevCursor\<close>, with the store round trips made, also when
  the call ends in an error.
\<close>

definition haystack_sides ::
  "sort_order \<Rightarrow> string \<Rightarrow> int \<Rightarrow> string \<Rightarrow> int \<Rightarrow> api_LeaderboardRecord \<Rightarrow> leaderboard_record list \<Rightarrow>
   (error + (api_LeaderboardRecord list \<times> bool \<times> bool)) \<times> event list" where
  "haystack_sides sortOrder leaderboardId expiryTime ownerID limit ownerRecord tbl =
     (case sql_select_haystack (sortOrder \<noteq> LeaderboardSortOrderAscending) leaderboardId expiryTime
             (rec_Score ownerRecord) (rec_Subscore ownerRecord) ownerID (wrap64 (limit + 1)) tbl of
        None \<Rightarrow> (Inl ErrStore, [DbSelectHaystack])
      | Some firstRows \<Rightarrow>
          (case drop_overflow limit (map parse_record firstRows) of
             Inl e \<Rightarrow> (Inl e, [DbSelectHaystack])
           | Inr (setNextCursor, firstTrimmed) \<Rightarrow>
               (let firstRecords = rev firstTrimmed;
                    l = int (length firstRecords);
                    secondLimit = (if l < go_div limit 2 then wrap64 (limit - l) else go_div limit 2)
                in case sql_select_haystack (sortOrder = LeaderboardSortOrderAscending) leaderboardId
                          expiryTime (rec_Score ownerRecord) (rec_Subscore ownerRecord) ownerID
                          (wrap64 (secondLimit + 1)) tbl of
                     None \<Rightarrow> (Inl ErrStore, [DbSelectHaystack, DbSelectHaystack])
                   | Some secondRows \<Rightarrow>
                       (case drop_overflow secondLimit (map parse_record secondRows) of
                          Inl e \<Rightarrow> (Inl e, [DbSelectHaystack, DbSelectHaystack])
                        | Inr (setPrevCursor, secondRecords) \<Rightarrow>
                            (case haystack_window limit l
                                    (firstRecords @ [ownerRecord] @ secondRecords) of
                               Inl e \<Rightarrow> (Inl e, [DbSelectHaystack, DbSelectHaystack])
                             | Inr records \<Rightarrow>
                                 (Inr (records, setNextCursor, setPrevCursor),
                                  [DbSelectHaystack, DbSelectHaystack]))))))"

text \<open>
  \<open>getLeaderboardRecordsHaystack\<close>. Its \<open>expiryTime\<close> is a \<open>time.Time\<close> made of whole
  seconds by the caller; the model takes the seconds.
\<close>

definition getLeaderboardRecordsHaystack ::
  "'rc env \<Rightarrow> string \<Rightarrow> int \<Rightarrow> string \<Rightarrow> string \<Rightarrow> sort_order \<Rightarrow> int \<Rightarrow> 'rc world \<Rightarrow>
   (error + api_LeaderboardRecordList) \<times> 'rc world" where
  "getLeaderboardRecordsHaystack E ownerID limit leaderboardId cursor sortOrder expiryTime w =
     (if cursor = [] then
        (let w1 = w\<lparr>trace := trace w @ [DbSelectRecord]\<rparr> in
         case find (\<lambda>r. owner_id r = ownerID \<and> leaderboard_id r = leaderboardId \<and>
                         expiry_time r = expiryTime) (table w) of
           None \<Rightarrow> (Inr \<lparr>Records = [], OwnerRecords = [], NextCursor = [], PrevCursor = []\<rparr>, w1)
         | Some row \<Rightarrow>
             (let ownerRecord = parse_record row in
              if limit = 1 then
                (Inr \<lparr>Records = [ownerRecord\<lparr>rec_Rank :=
                          rankCache_Get E (rankCache w) leaderboardId expiryTime ownerID\<rparr>],
                      OwnerRecords = [], NextCursor = [], PrevCursor = []\<rparr>,
                 w1\<lparr>trace := trace w1 @ [RankCacheGet]\<rparr>)
              else
                (case haystack_sides sortOrder leaderboardId expiryTime ownerID limit ownerRecord
                        (table w) of
                   (Inl e, evs) \<Rightarrow> (Inl e, w1\<lparr>trace := trace w1 @ evs\<rparr>)
                 | (Inr (windowed, setNextCursor, setPrevCursor), evs) \<Rightarrow>
                     (let records = map (\<lambda>r. r\<lparr>rec_Rank :=
                              rankCache_Fill E (rankCache w) leaderboardId expiryTime r\<rparr>) windowed;
                          w2 = w1\<lparr>trace := trace w1 @ evs @ [RankCacheFill]\<rparr>
                      in case (if setNextCursor
                               then (case records of
                                       [] \<Rightarrow> Inl Panic
                                     | firstRecord # rest \<Rightarrow>
                                         haystack_cursor (cursor_codec E) expiryTime False firstRecord)
                               else Inr []) of
                           Inl e \<Rightarrow> (Inl e, w2)
                         | Inr nextCursorStr \<Rightarrow>
                             (case (if setPrevCursor
                                    then (if records = [] then Inl Panic
                                          else haystack_cursor (cursor_codec E) expiryTime True
                                                 (last records))
                                    else Inr []) of
                                Inl e \<Rightarrow> (Inl e, w2)
                              | Inr prevCursorStr \<Rightarrow>
                                  (Inr \<lparr>Records = records, OwnerRecords = [],
                                        NextCursor = nextCursorStr, PrevCursor = prevCursorStr\<rparr>,
                                   w2))))))
      else LeaderboardRecordsList E leaderboardId (Some (wrap32 limit)) cursor [] expiryTime w)"

definition LeaderboardRecordsHaystack ::
  "'rc env \<Rightarrow> string \<Rightarrow> string \<Rightarrow> string \<Rightarrow> int \<Rightarrow> int \<Rightarrow> 'rc world \<Rightarrow>
   (error + api_LeaderboardRecordList) \<times> 'rc world" where
  "LeaderboardRecordsHaystack E leaderboardId cursor ownerID limit overrideExpiry w =
     (case leaderboardCache_Get E leaderboardId of
        None \<Rightarrow> (Inl ErrLeaderboardNotFound, w)
      | Some leaderboard \<Rightarrow>
          (let (expiryTime, recordsPossible) = calculateExpiryOverride E overrideExpiry leaderboard in
           if \<not> recordsPossible
           then (Inr \<lparr>Records = [], OwnerRecords = [], NextCursor = [], PrevCursor = []\<rparr>, w)
           else getLeaderboardRecordsHaystack E ownerID limit (Id leaderboard) cursor
                  (SortOrder leaderboard) expiryTime w))"

text \<open>Three rows of the descending leaderboard \<open>lb\<close>: \<open>c\<close> ranks first, then \<open>b\<close>, then \<open>a\<close>.\<close>

definition demo_rows :: "leaderboard_record list" where
  "demo_rows = [demo_row ''lb'' ''a'' 10 0, demo_row ''lb'' ''b'' 20 0, demo_row ''lb'' ''c'' 30 0]"

text \<open>What a test reads off a returned list: owner, score, subscore and rank of each record, and the two cursors.\<close>

definition record_summary :: "api_LeaderboardRecord \<Rightarrow> string \<times> int \<times> int \<times> int" where
  "record_summary r = (rec_OwnerId r, rec_Score r, rec_Subscore r, rec_Rank r)"

definition list_summary ::
  "(error + api_LeaderboardRecordList) \<times> 'w \<Rightarrow> error + ((string \<times> int \<times> int \<times> int) list \<times> string \<times> string)" where
  "list_summary res =
     (case fst res of
        Inl e \<Rightarrow> Inl e
      | Inr l \<Rightarrow> Inr (map record_summary (Records l), NextCursor l, PrevCursor l))"

section \<open>Properties\<close>

subsection \<open>Cursor decoding\<close>

text \<open>
  C2. Decoding an empty cursor string yields no cursor and no error. Decoding a non-empty
  string yields \<open>ErrLeaderboardInvalidCursor\<close> exactly when the base64 decoding fails, or
  the gob decoding of the payload fails, or the decoded cursor's \<open>LeaderboardId\<close> or
  \<open>ExpiryTime\<close> differs from the request's; in every other case it yields the decoded
  cursor. So a cursor made for another leaderboard or expiry is always refused.
\<close>

theorem unmarshal_cursor_cases:
  "unmarshalLeaderboardRecordsListCursor K lid exp [] = Inr None \<and>
   (s \<noteq> [] \<longrightarrow>
      (unmarshalLeaderboardRecordsListCursor K lid exp s = Inl ErrLeaderboardInvalidCursor) =
        (base64_DecodeString K s = None \<or>
         (\<exists>cb. base64_DecodeString K s = Some cb \<and> gob_Decode K cb = None) \<or>
         (\<exists>cb c. base64_DecodeString K s = Some cb \<and> gob_Decode K cb = Some c \<and>
            (LeaderboardId c \<noteq> lid \<or> ExpiryTime c \<noteq> exp)))) \<and>
   (s \<noteq> [] \<longrightarrow>
      (\<forall>e. unmarshalLeaderboardRecordsListCursor K lid exp s = Inl e \<longrightarrow>
           e = ErrLeaderboardInvalidCursor) \<and>
      (\<forall>r. unmarshalLeaderboardRecordsListCursor K lid exp s = Inr r \<longrightarrow>
           (\<exists>cb c. base64_DecodeString K s = Some cb \<and> gob_Decode K cb = Some c \<and>
              LeaderboardId c = lid \<and> ExpiryTime c = exp \<and> r = Some c))) \<and>
   (base64_DecodeString K s = Some cb \<longrightarrow> gob_Decode K cb = Some c \<longrightarrow> s \<noteq> [] \<longrightarrow>
      (LeaderboardId c, ExpiryTime c) \<noteq> (lid, exp) \<longrightarrow>
      unmarshalLeaderboardRecordsListCursor K lid exp s = Inl ErrLeaderboardInvalidCursor)"
  by (auto simp: unmarshalLeaderboardRecordsListCursor_def split: option.splits)

theorem unmarshal_cursor_cases_witness:
  "unmarshalLeaderboardRecordsListCursor demo_codec ''lb'' 0 [] = Inr None \<and>
   unmarshalLeaderboardRecordsListCursor demo_codec ''lb'' 0 ''n2_lb0_20_0_1_b2_'' = Inr (Some demo_cursor) \<and>
   unmarshalLeaderboardRecordsListCursor demo_codec ''lb'' 0 ''n lb'' = Inl ErrLeaderboardInvalidCursor \<and>
   unmarshalLeaderboardRecordsListCursor demo_codec ''lb'' 0 ''zzz'' = Inl ErrLeaderboardInvalidCursor \<and>
   unmarshalLeaderboardRecordsListCursor demo_codec ''other'' 0 ''n2_lb0_20_0_1_b2_'' = Inl ErrLeaderboardInvalidCursor \<and>
   unmarshalLeaderboardRecordsListCursor demo_codec ''lb'' 60 ''n2_lb0_20_0_1_b2_'' = Inl ErrLeaderboardInvalidCursor"
proof -
  have d1: "base64_DecodeString demo_codec ''n lb'' = None"
    by code_simp
  have d2: "base64_DecodeString demo_codec ''zzz'' = Some ''zzz''"
    by code_simp
  have g2: "gob_Decode demo_codec ''zzz'' = None"
    by code_simp
  have d3: "base64_DecodeString demo_codec ''n2_lb0_20_0_1_b2_'' = Some ''n2_lb0_20_0_1_b2_''"
    by code_simp
  have g3: "gob_Decode demo_codec ''n2_lb0_20_0_1_b2_'' = Some demo_cursor"
    by code_simp
  have c: "LeaderboardId demo_cursor = ''lb''" "ExpiryTime demo_cursor = 0"
    by (simp_all add: demo_cursor_def)
  have ok: "unmarshalLeaderboardRecordsListCursor demo_codec ''lb'' 0 ''n2_lb0_20_0_1_b2_'' =
      Inr (Some demo_cursor)"
    by (simp add: unmarshalLeaderboardRecordsListCursor_def d3 g3 c)
  show ?thesis
    using unmarshal_cursor_cases [of demo_codec "''lb''" 0 "''n lb''"]
      unmarshal_cursor_cases [of demo_codec "''lb''" 0 "''zzz''"]
      unmarshal_cursor_cases [of demo_codec "''other''" 0 "''n2_lb0_20_0_1_b2_''"
        "''n2_lb0_20_0_1_b2_''" demo_cursor]
      unmarshal_cursor_cases [of demo_codec "''lb''" 60 "''n2_lb0_20_0_1_b2_''"
        "''n2_lb0_20_0_1_b2_''" demo_cursor]
      d1 d2 g2 d3 g3 c ok
    by simp
qed

subsection \<open>Cursor round trip\<close>

text \<open>
  C7. Encoding a cursor \<open>c\<close> and decoding the resulting string under \<open>c\<close>'s own
  \<open>LeaderboardId\<close> and \<open>ExpiryTime\<close> succeeds and yields \<open>c\<close>. The two library
  codecs enter with their round-trip laws at \<open>c\<close>: gob decodes what it encoded, base64
  decodes what it encoded, and the encoded text is not empty (a gob stream always carries
  a type descriptor, and base64 maps a non-empty payload to a non-empty text).
\<close>

theorem cursor_round_trip:
  assumes "gob_Encode K c = Some bs"
    and "gob_Decode K bs = Some c"
    and "base64_DecodeString K (base64_EncodeToString K bs) = Some bs"
    and "base64_EncodeToString K bs \<noteq> []"
  shows "\<exists>s. marshalLeaderboardRecordsListCursor K c = Inr s \<and>
           unmarshalLeaderboardRecordsListCursor K (LeaderboardId c) (ExpiryTime c) s = Inr (Some c)"
  using assms
  by (simp add: marshalLeaderboardRecordsListCursor_def unmarshalLeaderboardRecordsListCursor_def)

theorem cursor_round_trip_witness:
  "\<exists>s. marshalLeaderboardRecordsListCursor demo_codec demo_cursor = Inr s \<and>
         unmarshalLeaderboardRecordsListCursor demo_codec ''lb'' 0 s = Inr (Some demo_cursor)"
proof -
  have e: "gob_Encode demo_codec demo_cursor = Some ''n2_lb0_20_0_1_b2_''"
    by code_simp
  have d: "gob_Decode demo_codec ''n2_lb0_20_0_1_b2_'' = Some demo_cursor"
    by code_simp
  have b: "base64_DecodeString demo_codec (base64_EncodeToString demo_codec ''n2_lb0_20_0_1_b2_'') =
      Some ''n2_lb0_20_0_1_b2_''"
    by code_simp
  have n: "base64_EncodeToString demo_codec ''n2_lb0_20_0_1_b2_'' \<noteq> []"
    by (simp add: demo_codec_def)
  have l: "LeaderboardId demo_cursor = ''lb''" and x: "ExpiryTime demo_cursor = 0"
    by (simp_all add: demo_cursor_def)
  show ?thesis
    using cursor_round_trip [OF e d b n] by (simp only: l x)
qed

subsection \<open>Previous reset\<close>

lemma wrap64_id: "- (2 ^ 63) \<le> x \<Longrightarrow> x < 2 ^ 63 \<Longrightarrow> wrap64 x = x"
  by (simp add: wrap64_def)

lemma wrap64_add_left: "wrap64 (wrap64 a + b) = wrap64 (a + b)"
proof -
  have "(wrap64 a + b + 2 ^ 63) mod 2 ^ 64 = ((a + 2 ^ 63) mod 2 ^ 64 + b) mod (2 ^ 64 :: int)"
    by (simp add: wrap64_def algebra_simps)
  also have "\<dots> = (a + 2 ^ 63 + b) mod 2 ^ 64"
    by (rule mod_add_left_eq)
  finally show ?thesis
    by (simp add: wrap64_def algebra_simps)
qed

lemma go_divmod_nonneg:
  "0 \<le> d \<Longrightarrow> go_div d 1000000000 = d div 1000000000 \<and> go_mod d 1000000000 = d mod 1000000000"
  by (cases "d = 0") (simp_all add: go_div_def go_mod_def minus_div_mult_eq_mod)

lemma go_divmod_neg:
  "d < 0 \<Longrightarrow> go_div d 1000000000 = - ((- d) div 1000000000) \<and>
     go_mod d 1000000000 = - ((- d) mod 1000000000)"
  by (simp add: go_div_def go_mod_def minus_div_mult_eq_mod [symmetric] algebra_simps)

lemma go_divmod_bounds:
  assumes "- (2 ^ 63) \<le> d" "d < 2 ^ 63"
  shows "go_div d 1000000000 * 1000000000 + go_mod d 1000000000 = d"
    and "- 1000000000 < go_mod d 1000000000" and "go_mod d 1000000000 < 1000000000"
    and "- 9223372037 < go_div d 1000000000" and "go_div d 1000000000 < 9223372037"
proof -
  show "go_div d 1000000000 * 1000000000 + go_mod d 1000000000 = d"
    by (simp add: go_mod_def)
  show "- 1000000000 < go_mod d 1000000000"
  proof (cases "0 \<le> d")
    case True
    then show ?thesis using go_divmod_nonneg [OF True] pos_mod_sign [of 1000000000 d] by simp
  next
    case False
    then have "d < 0" by simp
    then show ?thesis
      using go_divmod_neg [of d] pos_mod_bound [of 1000000000 "- d"] by simp
  qed
  show "go_mod d 1000000000 < 1000000000"
  proof (cases "0 \<le> d")
    case True
    then show ?thesis using go_divmod_nonneg [OF True] pos_mod_bound [of 1000000000 d] by simp
  next
    case False
    then have "d < 0" by simp
    then show ?thesis
      using go_divmod_neg [of d] pos_mod_sign [of 1000000000 "- d"] by simp
  qed
  show "- 9223372037 < go_div d 1000000000"
  proof (cases "0 \<le> d")
    case True
    then show ?thesis using go_divmod_nonneg [OF True] pos_imp_zdiv_nonneg_iff [of 1000000000 d] by simp
  next
    case False
    then have n: "d < 0" by simp
    have "(- d) div 1000000000 \<le> 2 ^ 63 div 1000000000"
      using assms by (intro zdiv_mono1) simp_all
    then show ?thesis
      using go_divmod_neg [OF n] by simp
  qed
  show "go_div d 1000000000 < 9223372037"
  proof (cases "0 \<le> d")
    case True
    have "d div 1000000000 \<le> 2 ^ 63 div 1000000000"
      using assms by (intro zdiv_mono1) simp_all
    then show ?thesis using go_divmod_nonneg [OF True] by simp
  next
    case False
    then have n: "d < 0" by simp
    have "0 \<le> (- d) div 1000000000"
      using n by (simp add: pos_imp_zdiv_nonneg_iff)
    then show ?thesis
      using go_divmod_neg [OF n] by simp
  qed
qed

lemma addSec_exact:
  "- (2 ^ 63) \<le> ext + d \<Longrightarrow> ext + d < 2 ^ 63 \<Longrightarrow> addSec ext d = ext + d"
  by (auto simp add: addSec_def wrap64_id Let_def)


lemma divmod_unique_int:
  fixes a q r :: int
  assumes "a = q * 1000000000 + r" "0 \<le> r" "r < 1000000000"
  shows "a div 1000000000 = q" and "a mod 1000000000 = r"
  using assms by (simp_all add: div_pos_pos_trivial mod_pos_pos_trivial)

lemma time_Add_exact:
  assumes n0: "0 \<le> tm_nsec t" and n1: "tm_nsec t < 1000000000"
    and s0: "- (2 ^ 62) \<le> tm_sec t" and s1: "tm_sec t < 2 ^ 62"
    and d0: "- (2 ^ 63) \<le> d" and d1: "d < 2 ^ 63"
  shows "time_Add t d =
     \<lparr>tm_sec = tm_sec t + (tm_nsec t + d) div 1000000000,
      tm_nsec = (tm_nsec t + d) mod 1000000000\<rparr>"
proof -
  define q where "q = go_div d 1000000000"
  define r where "r = go_mod d 1000000000"
  note b = go_divmod_bounds [OF d0 d1, folded q_def r_def]
  have qr: "d = q * 1000000000 + r"
    using b(1) by simp
  consider (hi) "1000000000 \<le> tm_nsec t + r" | (lo) "tm_nsec t + r < 0"
    | (mid) "0 \<le> tm_nsec t + r" "tm_nsec t + r < 1000000000"
    by linarith
  then show ?thesis
  proof cases
    case hi
    have e: "tm_nsec t + d = (q + 1) * 1000000000 + (tm_nsec t + r - 1000000000)"
      by (simp add: qr algebra_simps)
    have dm: "(tm_nsec t + d) div 1000000000 = q + 1"
      "(tm_nsec t + d) mod 1000000000 = tm_nsec t + r - 1000000000"
      using divmod_unique_int [OF e] hi b(3) n1 by simp_all
    have a: "addSec (tm_sec t) (q + 1) = tm_sec t + (q + 1)"
      using s0 s1 b(4) b(5) by (intro addSec_exact) simp_all
    show ?thesis
      using hi by (simp add: time_Add_def Let_def q_def [symmetric] r_def [symmetric] dm a)
  next
    case lo
    have e: "tm_nsec t + d = (q - 1) * 1000000000 + (tm_nsec t + r + 1000000000)"
      by (simp add: qr algebra_simps)
    have dm: "(tm_nsec t + d) div 1000000000 = q - 1"
      "(tm_nsec t + d) mod 1000000000 = tm_nsec t + r + 1000000000"
      using divmod_unique_int [OF e] lo b(2) n0 by simp_all
    have a: "addSec (tm_sec t) (q - 1) = tm_sec t + (q - 1)"
      using s0 s1 b(4) b(5) by (intro addSec_exact) simp_all
    show ?thesis
      using lo by (simp add: time_Add_def Let_def q_def [symmetric] r_def [symmetric] dm a)
  next
    case mid
    have e: "tm_nsec t + d = q * 1000000000 + (tm_nsec t + r)"
      by (simp add: qr algebra_simps)
    have dm: "(tm_nsec t + d) div 1000000000 = q"
      "(tm_nsec t + d) mod 1000000000 = tm_nsec t + r"
      using divmod_unique_int [OF e] mid by simp_all
    have a: "addSec (tm_sec t) q = tm_sec t + q"
      using s0 s1 b(4) b(5) by (intro addSec_exact) simp_all
    show ?thesis
      using mid by (simp add: time_Add_def Let_def q_def [symmetric] r_def [symmetric] dm a)
  qed
qed

lemma time_Sub_exact:
  assumes t: "plain_Time t" and u: "plain_Time u"
    and lo: "minDuration \<le> unix_nanos t - unix_nanos u"
    and hi: "unix_nanos t - unix_nanos u \<le> maxDuration"
  shows "time_Sub t u = unix_nanos t - unix_nanos u"
proof -
  define D where "D = unix_nanos t - unix_nanos u"
  have De: "D = (tm_sec t - tm_sec u) * 1000000000 + (tm_nsec t - tm_nsec u)"
    by (simp add: D_def unix_nanos_def algebra_simps)
  have Db: "- (2 ^ 63) \<le> D" "D < 2 ^ 63"
    using lo hi by (simp_all add: D_def minDuration_def maxDuration_def)
  have w1: "wrap64 (tm_sec t - tm_sec u) = tm_sec t - tm_sec u"
    using t u by (intro wrap64_id) (simp_all add: plain_Time_def)
  have d: "wrap64 (wrap64 (wrap64 (tm_sec t - tm_sec u) * 1000000000) + (tm_nsec t - tm_nsec u)) = D"
    unfolding w1 wrap64_add_left De [symmetric] using Db by (rule wrap64_id)
  have e: "tm_nsec u + D = (tm_sec t - tm_sec u) * 1000000000 + tm_nsec t"
    by (simp add: De)
  have dm: "(tm_nsec u + D) div 1000000000 = tm_sec t - tm_sec u"
    "(tm_nsec u + D) mod 1000000000 = tm_nsec t"
    using divmod_unique_int [OF e] t by (simp_all add: plain_Time_def)
  have a: "time_Add u D = \<lparr>tm_sec = tm_sec t, tm_nsec = tm_nsec t\<rparr>"
    using time_Add_exact [of u D] u Db by (simp add: plain_Time_def dm)
  have "time_Sub t u = D"
    by (simp add: time_Sub_def d a time_Equal_def Let_def)
  then show ?thesis
    by (simp add: D_def)
qed

lemma time_Unix_seconds:
  assumes "- (2 ^ 61) \<le> s" "s < 2 ^ 61"
  shows "time_Unix s 0 = \<lparr>tm_sec = s + unixToInternal, tm_nsec = 0\<rparr>"
    and "plain_Time (time_Unix s 0)"
    and "unix_nanos (time_Unix s 0) = s * 1000000000"
proof -
  show a: "time_Unix s 0 = \<lparr>tm_sec = s + unixToInternal, tm_nsec = 0\<rparr>"
    using assms by (simp add: time_Unix_def wrap64_id unixToInternal_def)
  show "plain_Time (time_Unix s 0)"
    using assms by (simp add: a plain_Time_def unixToInternal_def)
  show "unix_nanos (time_Unix s 0) = s * 1000000000"
    by (simp add: a unix_nanos_def)
qed

lemma calculatePrevReset_two:
  assumes n: "NextN E now 2 = [t1, t2]"
    and p1: "plain_Time t1" and p2: "plain_Time t2"
    and lo: "minDuration < unix_nanos t2 - unix_nanos t1"
    and hi: "unix_nanos t2 - unix_nanos t1 \<le> maxDuration"
    and c0: "- (2 ^ 63) \<le> C" and c1: "C + unixToInternal < 2 ^ 63"
  shows "calculatePrevReset now C (Some E) =
     Inr (if unix_nanos t1 - (unix_nanos t2 - unix_nanos t1) < C * 1000000000 then 0
          else (unix_nanos t1 - (unix_nanos t2 - unix_nanos t1)) div 1000000000)"
proof -
  define D where "D = unix_nanos t2 - unix_nanos t1"
  define P where "P = unix_nanos t1 - D"
  define ps where "ps = tm_sec t1 + (tm_nsec t1 + - D) div 1000000000"
  define pn where "pn = (tm_nsec t1 + - D) mod 1000000000"
  have Db: "- (2 ^ 63) < D" "D < 2 ^ 63"
    using lo hi by (simp_all add: D_def minDuration_def maxDuration_def)
  have s: "time_Sub t2 t1 = D"
    using time_Sub_exact [OF p2 p1] lo hi by (simp add: D_def)
  have w: "wrap64 (- D) = - D"
    using Db by (simp add: wrap64_id)
  have a: "time_Add t1 (- D) = \<lparr>tm_sec = ps, tm_nsec = pn\<rparr>"
    unfolding ps_def pn_def using p1 Db by (intro time_Add_exact) (simp_all add: plain_Time_def)
  have pnb: "0 \<le> pn" "pn < 1000000000"
    by (simp_all add: pn_def)
  have Pe: "P = (ps - unixToInternal) * 1000000000 + pn"
    unfolding P_def ps_def pn_def
    by (simp add: unix_nanos_def algebra_simps mult_div_mod_eq [symmetric])
  have psb: "- (2 ^ 63) \<le> ps - unixToInternal" "ps - unixToInternal < 2 ^ 63"
  proof -
    have "- D div 1000000000 \<le> (tm_nsec t1 + - D) div 1000000000"
      using p1 by (intro zdiv_mono1) (simp_all add: plain_Time_def)
    moreover have "- (2 ^ 63) div 1000000000 \<le> - D div (1000000000 :: int)"
      using Db by (intro zdiv_mono1) simp_all
    ultimately show "- (2 ^ 63) \<le> ps - unixToInternal"
      using p1 by (simp add: ps_def plain_Time_def unixToInternal_def)
    have "(tm_nsec t1 + - D) div 1000000000 \<le> (1000000000 + 2 ^ 63) div 1000000000"
      using p1 Db by (intro zdiv_mono1) (simp_all add: plain_Time_def)
    then show "ps - unixToInternal < 2 ^ 63"
      using p1 by (simp add: ps_def plain_Time_def unixToInternal_def)
  qed
  have u: "time_Unix C 0 = \<lparr>tm_sec = C + unixToInternal, tm_nsec = 0\<rparr>"
    using c0 c1 by (simp add: time_Unix_def wrap64_id unixToInternal_def)
  have bf: "time_Before \<lparr>tm_sec = ps, tm_nsec = pn\<rparr> (time_Unix C 0) = (P < C * 1000000000)"
    unfolding u Pe using pnb by (auto simp add: time_Before_def)
  have ux: "Unix \<lparr>tm_sec = ps, tm_nsec = pn\<rparr> = P div 1000000000"
    using divmod_unique_int(1) [OF Pe pnb] psb by (simp add: Unix_def wrap64_id)
  show ?thesis
    unfolding D_def [symmetric] P_def [symmetric]
    by (simp add: calculatePrevReset_def n s w a bf ux Let_def)
qed

text \<open>
  C9 (as amended). Without a schedule the previous reset is 0. Let the schedule return
  two resets \<open>t1\<close> and \<open>t2\<close> after \<open>now\<close>, plain times whose distance is a representable
  duration above the smallest one, and let the create time \<open>C\<close> be such that
  \<open>C + unixToInternal\<close> fits \<open>int64\<close>, so that \<open>time.Unix(C, 0)\<close> does not wrap. Then the
  period is \<open>t2 - t1\<close> and the result is \<open>t1\<close> minus the period in epoch seconds, except
  that it is 0 when that instant is before \<open>C\<close>. For resets at whole seconds \<open>s1\<close> and
  \<open>s2\<close> this is \<open>s1 - (s2 - s1)\<close>.
\<close>

theorem calculatePrevReset_spec:
  "calculatePrevReset now C None = Inr 0 \<and>
   (NextN E now 2 = [t1, t2] \<longrightarrow> plain_Time t1 \<longrightarrow> plain_Time t2 \<longrightarrow>
      minDuration < unix_nanos t2 - unix_nanos t1 \<longrightarrow>
      unix_nanos t2 - unix_nanos t1 \<le> maxDuration \<longrightarrow>
      - (2 ^ 63) \<le> C \<longrightarrow> C + unixToInternal < 2 ^ 63 \<longrightarrow>
      calculatePrevReset now C (Some E) =
        Inr (if unix_nanos t1 - (unix_nanos t2 - unix_nanos t1) < C * 1000000000 then 0
             else (unix_nanos t1 - (unix_nanos t2 - unix_nanos t1)) div 1000000000)) \<and>
   (NextN E now 2 = [time_Unix s1 0, time_Unix s2 0] \<longrightarrow>
      - (2 ^ 61) \<le> s1 \<longrightarrow> s1 < 2 ^ 61 \<longrightarrow> - (2 ^ 61) \<le> s2 \<longrightarrow> s2 < 2 ^ 61 \<longrightarrow>
      minDuration < (s2 - s1) * 1000000000 \<longrightarrow> (s2 - s1) * 1000000000 \<le> maxDuration \<longrightarrow>
      - (2 ^ 63) \<le> C \<longrightarrow> C + unixToInternal < 2 ^ 63 \<longrightarrow>
      calculatePrevReset now C (Some E) =
        Inr (if s1 - (s2 - s1) < C then 0 else s1 - (s2 - s1)))"
proof (intro conjI impI)
  show "calculatePrevReset now C None = Inr 0"
    by (simp add: calculatePrevReset_def)
next
  assume "NextN E now 2 = [t1, t2]" "plain_Time t1" "plain_Time t2"
    "minDuration < unix_nanos t2 - unix_nanos t1" "unix_nanos t2 - unix_nanos t1 \<le> maxDuration"
    "- (2 ^ 63) \<le> C" "C + unixToInternal < 2 ^ 63"
  then show "calculatePrevReset now C (Some E) =
        Inr (if unix_nanos t1 - (unix_nanos t2 - unix_nanos t1) < C * 1000000000 then 0
             else (unix_nanos t1 - (unix_nanos t2 - unix_nanos t1)) div 1000000000)"
    by (rule calculatePrevReset_two)
next
  assume n: "NextN E now 2 = [time_Unix s1 0, time_Unix s2 0]"
    and b1: "- (2 ^ 61) \<le> s1" "s1 < 2 ^ 61" and b2: "- (2 ^ 61) \<le> s2" "s2 < 2 ^ 61"
    and lo: "minDuration < (s2 - s1) * 1000000000" and hi: "(s2 - s1) * 1000000000 \<le> maxDuration"
    and c: "- (2 ^ 63) \<le> C" "C + unixToInternal < 2 ^ 63"
  note u1 = time_Unix_seconds [OF b1] and u2 = time_Unix_seconds [OF b2]
  have lo': "minDuration < unix_nanos (time_Unix s2 0) - unix_nanos (time_Unix s1 0)"
    and hi': "unix_nanos (time_Unix s2 0) - unix_nanos (time_Unix s1 0) \<le> maxDuration"
    using lo hi by (simp_all add: u1(3) u2(3) algebra_simps)
  have e: "s1 * 1000000000 - (s2 * 1000000000 - s1 * 1000000000) = (s1 - (s2 - s1)) * 1000000000"
    by (simp add: algebra_simps)
  show "calculatePrevReset now C (Some E) = Inr (if s1 - (s2 - s1) < C then 0 else s1 - (s2 - s1))"
    unfolding calculatePrevReset_two [OF n u1(2) u2(2) lo' hi' c] u1(3) u2(3) e by simp
qed

theorem calculatePrevReset_spec_witness:
  "calculatePrevReset (time_Unix 90 0) 0 None = Inr 0 \<and>
   calculatePrevReset (time_Unix 90 0) 0 (Some (demo_schedule 60)) = Inr 60 \<and>
   calculatePrevReset (time_Unix 90 0) 100 (Some (demo_schedule 60)) = Inr 0"
proof -
  have u: "Unix (time_Unix 90 0) = 90"
    by (simp add: Unix_def time_Unix_def wrap64_def unixToInternal_def)
  have n: "NextN (demo_schedule 60) (time_Unix 90 0) 2 = [time_Unix 120 0, time_Unix 180 0]"
    by (simp add: demo_schedule_def u numeral_2_eq_2)
  have lo: "minDuration < (180 - 120) * 1000000000" and hi: "(180 - 120) * 1000000000 \<le> maxDuration"
    by (simp_all add: minDuration_def maxDuration_def)
  show ?thesis
    using calculatePrevReset_spec [of "time_Unix 90 0" 0 "demo_schedule 60" "time_Unix 120 0"
        "time_Unix 180 0" 120 180]
      calculatePrevReset_spec [of "time_Unix 90 0" 100 "demo_schedule 60" "time_Unix 120 0"
        "time_Unix 180 0" 120 180]
      n lo hi
    by (simp add: unixToInternal_def)
qed

text \<open>
  The claim as first stated, for every schedule and every create time, fails in two ways.
  A schedule with one reset left makes the index \<open>nextResets[1]\<close> panic. And for the
  largest create time \<open>time.Unix(C, 0)\<close> wraps to an instant long before year 1, so that
  the previous reset, 60, although before \<open>C\<close>, is returned instead of 0.
\<close>

theorem calculatePrevReset_counterexample:
  "NextN (demo_schedule_once 120) (time_Unix 90 0) 2 = [time_Unix 120 0] \<and>
   calculatePrevReset (time_Unix 90 0) 0 (Some (demo_schedule_once 120)) = Inl Panic \<and>
   NextN (demo_schedule 60) (time_Unix 90 0) 2 = [time_Unix 120 0, time_Unix 180 0] \<and>
   calculatePrevReset (time_Unix 90 0) 9223372036854775807 (Some (demo_schedule 60)) = Inr 60"
  by code_simp

subsection \<open>The authoritative gate\<close>

lemma demo_get_auth:
  "leaderboardCache_Get demo_env ''auth'' =
     Some (demo_leaderboard ''auth'' True LeaderboardSortOrderDescending LeaderboardOperatorBest)"
  by (simp add: demo_env_def demo_leaderboards_def)

lemma demo_auth_authoritative:
  "Authoritative (demo_leaderboard ''auth'' True LeaderboardSortOrderDescending LeaderboardOperatorBest)"
  by (simp add: demo_leaderboard_def)

lemma demo_player_not_nil: "''player-1'' \<noteq> uuid_Nil"
  by (simp add: uuid_Nil_def)

text \<open>
  C8. A write to a leaderboard with \<open>Authoritative\<close> set, by a caller other than
  \<open>uuid.Nil\<close>, returns \<open>ErrLeaderboardAuthoritative\<close> and leaves the world as it was: the
  table and the rank index are unchanged and the trace records no round trip to the
  store and no call of the rank index.
\<close>

theorem write_authoritative_gate:
  assumes "leaderboardCache_Get E leaderboardId = Some leaderboard"
    and "Authoritative leaderboard"
    and "caller \<noteq> uuid_Nil"
  shows "LeaderboardRecordWrite E caller leaderboardId ownerID usernameArg scoreArg subscoreArg
           metadataArg overrideOperator w = (Inl ErrLeaderboardAuthoritative, w)"
  using assms by (simp add: LeaderboardRecordWrite_def)

theorem write_authoritative_gate_witness:
  "LeaderboardRecordWrite demo_env ''player-1'' ''auth'' ''player-1'' ''name'' 10 0 []
     Operator_NO_OVERRIDE (demo_world [demo_row ''auth'' ''player-2'' 5 0]) =
   (Inl ErrLeaderboardAuthoritative, demo_world [demo_row ''auth'' ''player-2'' 5 0])"
  by (rule write_authoritative_gate [OF demo_get_auth demo_auth_authoritative demo_player_not_nil])

text \<open>
  C10. A delete on a leaderboard with \<open>Authoritative\<close> set, by a caller other than
  \<open>uuid.Nil\<close>, returns \<open>ErrLeaderboardAuthoritative\<close> and leaves the world as it was: no
  row is deleted, the rank index is unchanged and the trace records no round trip.
\<close>

theorem delete_authoritative_gate:
  assumes "leaderboardCache_Get E leaderboardId = Some leaderboard"
    and "Authoritative leaderboard"
    and "caller \<noteq> uuid_Nil"
  shows "LeaderboardRecordDelete E caller leaderboardId ownerID w =
           (Some ErrLeaderboardAuthoritative, w)"
  using assms by (simp add: LeaderboardRecordDelete_def)

theorem delete_authoritative_gate_witness:
  "LeaderboardRecordDelete demo_env ''player-1'' ''auth'' ''player-2''
     (demo_world [demo_row ''auth'' ''player-2'' 5 0]) =
   (Some ErrLeaderboardAuthoritative, demo_world [demo_row ''auth'' ''player-2'' 5 0])"
  by (rule delete_authoritative_gate [OF demo_get_auth demo_auth_authoritative demo_player_not_nil])

subsection \<open>The insert path of a write\<close>


lemma find_append_new:
  "find P tbl = None \<Longrightarrow> P r \<Longrightarrow> find P (tbl @ [r]) = Some r"
  by (induction tbl) (auto split: if_splits)


lemma write_params_op:
  "write_params operator a b = (sd, ssd, sa, ssa) \<Longrightarrow>
   opSQL operator so old sa ssa sd ssd = opSQL operator so old a b a b"
  by (cases operator) (auto simp: write_params_def opSQL_def)

lemma write_params_abs:
  "write_params operator a b = (sd, ssd, sa, ssa) \<Longrightarrow>
   sa = (if operator = LeaderboardOperatorDecrement then 0 else a) \<and>
   ssa = (if operator = LeaderboardOperatorDecrement then 0 else b)"
  by (cases operator) (auto simp: write_params_def)

lemma table_write_finish:
  "table (snd (write_finish E lb lid own exp u r w)) = table w"
  by (auto simp: write_finish_def Let_def split: option.splits prod.splits)

lemma fst_write_finish:
  "uuid_FromString E own = Some u \<Longrightarrow>
   \<exists>rec. fst (write_finish E lb lid own exp un r w) = Inr rec \<and> rec_Score rec = score r \<and>
     rec_Subscore rec = subscore r \<and> rec_NumScore rec = num_score r \<and> rec_Metadata rec = metadata r"
  by (auto simp: write_finish_def Let_def split: option.splits prod.splits)

text \<open>
  C3 (as amended). A write that finds no row at \<open>(leaderboard_id, owner_id, expiry_time)\<close>
  appends one row to the table. Under the effective operators best, set and increment its
  score and subscore are the submitted values; under decrement they are both 0, whatever
  was submitted. Its \<open>num_score\<close> is 1 and its metadata is the submitted text, or \<open>{}\<close> when
  none was submitted. When the owner id is a UUID the call returns that row's values.
\<close>

theorem insert_stores_initial_values:
  assumes get: "leaderboardCache_Get E leaderboardId = Some leaderboard"
    and gate: "Authoritative leaderboard \<longrightarrow> caller = uuid_Nil"
    and op: "effective_operator leaderboard overrideOperator = Some operator"
    and fresh: "find (conflicts leaderboardId ownerID (write_expiry E leaderboard)) (table w) = None"
  shows "\<exists>r. table (snd (LeaderboardRecordWrite E caller leaderboardId ownerID usernameArg scoreArg
                  subscoreArg metadataArg overrideOperator w)) = table w @ [r] \<and>
           leaderboard_id r = leaderboardId \<and> owner_id r = ownerID \<and>
           expiry_time r = write_expiry E leaderboard \<and>
           score r = (if operator = LeaderboardOperatorDecrement then 0 else scoreArg) \<and>
           subscore r = (if operator = LeaderboardOperatorDecrement then 0 else subscoreArg) \<and>
           num_score r = 1 \<and>
           metadata r = (if metadataArg = [] then ''{}'' else metadataArg) \<and>
           (\<forall>u. uuid_FromString E ownerID = Some u \<longrightarrow>
              (\<exists>rec. fst (LeaderboardRecordWrite E caller leaderboardId ownerID usernameArg scoreArg
                         subscoreArg metadataArg overrideOperator w) = Inr rec \<and>
                 rec_Score rec = score r \<and> rec_Subscore rec = subscore r \<and>
                 rec_NumScore rec = 1 \<and> rec_Metadata rec = metadata r))"
proof -
  obtain sd ssd sa ssa where p: "write_params operator scoreArg subscoreArg = (sd, ssd, sa, ssa)"
    by (cases "write_params operator scoreArg subscoreArg") auto
  note ab = write_params_abs [OF p]
  define r where "r = \<lparr>leaderboard_id = leaderboardId, owner_id = ownerID,
      username = (if usernameArg = [] then None else Some usernameArg), score = sa,
      subscore = ssa, num_score = 1, max_num_score = default_max_num_score E,
      metadata = (if metadataArg = [] then ''{}'' else metadataArg),
      create_time = sql_now E, update_time = sql_now E, expiry_time = write_expiry E leaderboard\<rparr>"
  have up: "sql_upsert (sql_now E) (default_max_num_score E) operator (SortOrder leaderboard)
      leaderboardId ownerID (if usernameArg = [] then None else Some usernameArg) sa ssa
      (if metadataArg = [] then None else Some metadataArg) (write_expiry E leaderboard) sd ssd (table w)
      = Returned r (table w @ [r])"
    by (simp add: sql_upsert_def fresh r_def Let_def)
  have W: "LeaderboardRecordWrite E caller leaderboardId ownerID usernameArg scoreArg
                  subscoreArg metadataArg overrideOperator w =
      write_finish E leaderboard leaderboardId ownerID (write_expiry E leaderboard) False r
        (w\<lparr>table := table w @ [r], trace := trace w @ [DbUpsertRecord]\<rparr>)"
  proof -
    have g: "\<not> (Authoritative leaderboard \<and> caller \<noteq> uuid_Nil)"
      using gate by blast
    show ?thesis
      by (simp add: LeaderboardRecordWrite_def get op p Let_def up g)
  qed
  have t: "table (snd (LeaderboardRecordWrite E caller leaderboardId ownerID usernameArg scoreArg
                  subscoreArg metadataArg overrideOperator w)) = table w @ [r]"
    by (simp add: W table_write_finish)
  have f: "\<exists>rec. fst (LeaderboardRecordWrite E caller leaderboardId ownerID usernameArg scoreArg
                         subscoreArg metadataArg overrideOperator w) = Inr rec \<and>
                 rec_Score rec = score r \<and> rec_Subscore rec = subscore r \<and>
                 rec_NumScore rec = 1 \<and> rec_Metadata rec = metadata r"
    if "uuid_FromString E ownerID = Some u" for u
    using fst_write_finish [OF that, of leaderboard leaderboardId "write_expiry E leaderboard" False r]
    unfolding W by (simp add: r_def)
  have fields: "leaderboard_id r = leaderboardId" "owner_id r = ownerID"
      "expiry_time r = write_expiry E leaderboard"
      "score r = (if operator = LeaderboardOperatorDecrement then 0 else scoreArg)"
      "subscore r = (if operator = LeaderboardOperatorDecrement then 0 else subscoreArg)"
      "num_score r = 1" "metadata r = (if metadataArg = [] then ''{}'' else metadataArg)"
    using ab by (simp_all add: r_def)
  show ?thesis
    using t fields f by blast
qed


lemma demo_get_inc:
  "leaderboardCache_Get demo_env ''inc'' =
     Some (demo_leaderboard ''inc'' False LeaderboardSortOrderDescending LeaderboardOperatorIncrement)"
  by (simp add: demo_env_def demo_leaderboards_def)

theorem insert_stores_initial_values_witness:
  "\<exists>r. table (snd (LeaderboardRecordWrite demo_env uuid_Nil ''inc'' ''a'' [] 5 3 []
                  Operator_NO_OVERRIDE (demo_world []))) = [r] \<and>
        score r = 5 \<and> subscore r = 3 \<and> num_score r = 1 \<and> metadata r = ''{}''"
proof -
  have gate: "Authoritative (demo_leaderboard ''inc'' False LeaderboardSortOrderDescending
      LeaderboardOperatorIncrement) \<longrightarrow> uuid_Nil = uuid_Nil"
    by simp
  have op: "effective_operator (demo_leaderboard ''inc'' False LeaderboardSortOrderDescending
      LeaderboardOperatorIncrement) Operator_NO_OVERRIDE = Some LeaderboardOperatorIncrement"
    by (simp add: effective_operator_def demo_leaderboard_def)
  have fresh: "find (conflicts ''inc'' ''a'' (write_expiry demo_env (demo_leaderboard ''inc'' False
      LeaderboardSortOrderDescending LeaderboardOperatorIncrement))) (table (demo_world [])) = None"
    by (simp add: demo_world_def)
  show ?thesis
    using insert_stores_initial_values [OF demo_get_inc gate op fresh, of "[]" 5 3 "[]"]
    by (auto simp: demo_world_def)
qed

text \<open>
  The claim as first stated fails for decrement: on an empty table, a decrement write
  submitting \<open>(5, 3)\<close> stores the row with score 0 and subscore 0.
\<close>

theorem insert_decrement_counterexample:
  "table (demo_world []) = [] \<and>
   leaderboardCache_Get demo_env ''dec'' =
     Some (demo_leaderboard ''dec'' False LeaderboardSortOrderDescending LeaderboardOperatorDecrement) \<and>
   map (\<lambda>r. (leaderboard_id r, owner_id r, score r, subscore r))
     (table (snd (LeaderboardRecordWrite demo_env uuid_Nil ''dec'' ''a'' [] 5 3 []
        Operator_NO_OVERRIDE (demo_world [])))) = [(''dec'', ''a'', 0, 0)]"
proof -
  have t: "table (demo_world []) = []"
    by (simp add: demo_world_def)
  have g: "leaderboardCache_Get demo_env ''dec'' =
     Some (demo_leaderboard ''dec'' False LeaderboardSortOrderDescending LeaderboardOperatorDecrement)"
    by (simp add: demo_env_def demo_leaderboards_def)
  have w: "map (\<lambda>r. (leaderboard_id r, owner_id r, score r, subscore r))
     (table (snd (LeaderboardRecordWrite demo_env uuid_Nil ''dec'' ''a'' [] 5 3 []
        Operator_NO_OVERRIDE (demo_world [])))) = [(''dec'', ''a'', 0, 0)]"
    by code_simp
  show ?thesis
    using t g w by simp
qed

subsection \<open>The update path of a write\<close>












subsection \<open>Paginated listing\<close>

lemma set_order_asc: "set (order_asc rows) = set rows"
  by (simp add: order_asc_def)

lemma set_order_desc: "set (order_desc rows) = set rows"
  by (simp add: order_desc_def)

lemma sorted_order_asc: "sorted (map row_key (order_asc rows))"
  by (simp add: order_asc_def)

lemma sorted_order_desc: "sorted (rev (map row_key (order_desc rows)))"
  by (simp add: order_desc_def rev_map)

lemma sorted_rev_take:
  assumes "sorted (rev xs)"
  shows "sorted (rev (take n xs))"
proof -
  have "sorted_wrt (\<lambda>x y. y \<le> x) xs"
    using assms by (simp add: sorted_wrt_rev)
  then have "sorted_wrt (\<lambda>x y. y \<le> x) (take n xs)"
    by (rule sorted_wrt_take)
  then show ?thesis
    by (simp add: sorted_wrt_rev)
qed

lemma sql_limit_SomeD:
  "sql_limit n xs = Some ys \<Longrightarrow> ys = take (nat n) xs \<and> 0 \<le> n"
  by (auto simp: sql_limit_def split: if_splits)

lemma tuple5_greater:
  "((a::string, b::int, s::int, ss::int, o1::string) > (a, b, s', ss', o2)) = ((s, ss, o1) > (s', ss', o2))"
  by (auto simp: less_prod_def)

lemma tuple5_less:
  "((a::string, b::int, s::int, ss::int, o1::string) < (a, b, s', ss', o2)) = ((s, ss, o1) < (s', ss', o2))"
  by (auto simp: less_prod_def)

text \<open>
  The page query with a cursor: in the two combinations ascending with next and
  descending with previous it fetches rows of the leaderboard and expiry whose key is
  strictly greater than the cursor's, in ascending key order; in the two others rows whose
  key is strictly less, in descending key order; never more rows than \<open>LIMIT\<close>.
\<close>

lemma select_page_with_cursor:
  assumes "sql_select_page sortOrder (Some c) lid exp n tbl = Some rows"
  shows "((sortOrder = LeaderboardSortOrderAscending \<and> IsNext c) \<or>
          (sortOrder = LeaderboardSortOrderDescending \<and> \<not> IsNext c) \<longrightarrow>
            (\<forall>r \<in> set rows. row_key r > (Score c, Subscore c, OwnerId c)) \<and>
            sorted (map row_key rows)) \<and>
         (\<not> ((sortOrder = LeaderboardSortOrderAscending \<and> IsNext c) \<or>
             (sortOrder = LeaderboardSortOrderDescending \<and> \<not> IsNext c)) \<longrightarrow>
            (\<forall>r \<in> set rows. row_key r < (Score c, Subscore c, OwnerId c)) \<and>
            sorted (rev (map row_key rows))) \<and>
         (\<forall>r \<in> set rows. r \<in> set tbl \<and> leaderboard_id r = lid \<and> expiry_time r = exp) \<and>
         int (length rows) \<le> n"
proof (cases "(sortOrder = LeaderboardSortOrderAscending \<and> IsNext c) \<or>
          (sortOrder = LeaderboardSortOrderDescending \<and> \<not> IsNext c)")
  case True
  let ?sel = "order_asc (filter (\<lambda>r. leaderboard_id r = lid \<and> expiry_time r = exp \<and>
                      (leaderboard_id r, expiry_time r, score r, subscore r, owner_id r) >
                        (lid, exp, Score c, Subscore c, OwnerId c)) tbl)"
  have "sql_limit n ?sel = Some rows"
    using assms True unfolding sql_select_page_def by (simp only: option.case if_True)
  then have rows: "rows = take (nat n) ?sel" and n: "0 \<le> n"
    using sql_limit_SomeD by blast+
  have sub: "set rows \<subseteq> set ?sel"
    unfolding rows by (rule set_take_subset)
  have k: "\<forall>r \<in> set rows. row_key r > (Score c, Subscore c, OwnerId c) \<and> r \<in> set tbl \<and>
      leaderboard_id r = lid \<and> expiry_time r = exp"
    using sub by (auto simp: set_order_asc row_key_def tuple5_greater)
  have s: "sorted (map row_key rows)"
    unfolding rows take_map [symmetric] by (rule sorted_wrt_take [OF sorted_order_asc])
  have l: "int (length rows) \<le> n"
    using n by (simp add: rows)
  show ?thesis
    using True k s l by blast
next
  case False
  let ?sel = "order_desc (filter (\<lambda>r. leaderboard_id r = lid \<and> expiry_time r = exp \<and>
                      (leaderboard_id r, expiry_time r, score r, subscore r, owner_id r) <
                        (lid, exp, Score c, Subscore c, OwnerId c)) tbl)"
  have "sql_limit n ?sel = Some rows"
    using assms False unfolding sql_select_page_def by (simp only: option.case if_False)
  then have rows: "rows = take (nat n) ?sel" and n: "0 \<le> n"
    using sql_limit_SomeD by blast+
  have sub: "set rows \<subseteq> set ?sel"
    unfolding rows by (rule set_take_subset)
  have k: "\<forall>r \<in> set rows. row_key r < (Score c, Subscore c, OwnerId c) \<and> r \<in> set tbl \<and>
      leaderboard_id r = lid \<and> expiry_time r = exp"
    using sub by (auto simp: set_order_desc row_key_def tuple5_less)
  have s: "sorted (rev (map row_key rows))"
    unfolding rows take_map [symmetric] by (rule sorted_rev_take [OF sorted_order_desc])
  have l: "int (length rows) \<le> n"
    using n by (simp add: rows)
  show ?thesis
    using False k s l by blast
qed

lemma flip_loop_step:
  "i < j \<Longrightarrow> flip_loop i j s = flip_loop (i + 1) (j - 1) (swap_step (nat i) (nat j) s)"
  by (subst flip_loop.simps) simp

lemma flip_loop_done: "\<not> i < j \<Longrightarrow> flip_loop i j s = s"
  by (subst flip_loop.simps) simp

lemma swap_step_flipped:
  assumes n: "length h = n" and ij: "i < j" and s: "i + j + 1 = n"
  shows "swap_step i j (flipped_records n i j, flipped_heap h i j) =
           (flipped_records n (Suc i) (j - 1), flipped_heap h (Suc i) (j - 1))"
proof -
  have jn: "j < n" and in': "i < n"
    using ij s by auto
  have ri: "flipped_records n i j ! i = i" and rj: "flipped_records n i j ! j = j"
    using ij jn in' by (simp_all add: flipped_records_def)
  have hi: "flipped_heap h i j ! i = h ! i" and hj: "flipped_heap h i j ! j = h ! j"
    using ij jn in' n by (simp_all add: flipped_heap_def)
  have lr: "length (flipped_records n i j) = n" and lh: "length (flipped_heap h i j) = n"
    by (simp_all add: flipped_records_def flipped_heap_def n)
  have ni: "n - Suc i = j" and nj: "n - Suc j = i"
    using s by auto
  have R: "(flipped_records n i j)[i := j, j := i] = flipped_records n (Suc i) (j - 1)"
  proof (rule nth_equalityI)
    show "length ((flipped_records n i j)[i := j, j := i]) = length (flipped_records n (Suc i) (j - 1))"
      by (simp add: flipped_records_def)
  next
    fix q
    assume "q < length ((flipped_records n i j)[i := j, j := i])"
    then have q: "q < n"
      by (simp add: flipped_records_def)
    consider "q = i" | "q = j" | "q \<noteq> i" "q \<noteq> j"
      by blast
    then show "(flipped_records n i j)[i := j, j := i] ! q = flipped_records n (Suc i) (j - 1) ! q"
    proof cases
      case 1
      then show ?thesis
        using ij jn in' ni by (simp add: flipped_records_def)
    next
      case 2
      then show ?thesis
        using ij jn in' nj by (simp add: flipped_records_def)
    next
      case 3
      then show ?thesis
        using ij jn in' q by (auto simp: flipped_records_def)
    qed
  qed
  have H: "(flipped_heap h i j)
             [i := (h ! i)\<lparr>rec_Rank := rec_Rank (h ! j)\<rparr>,
              j := (h ! j)\<lparr>rec_Rank := rec_Rank (h ! i)\<rparr>] = flipped_heap h (Suc i) (j - 1)"
  proof (rule nth_equalityI)
    show "length ((flipped_heap h i j)
             [i := (h ! i)\<lparr>rec_Rank := rec_Rank (h ! j)\<rparr>,
              j := (h ! j)\<lparr>rec_Rank := rec_Rank (h ! i)\<rparr>]) = length (flipped_heap h (Suc i) (j - 1))"
      by (simp add: flipped_heap_def)
  next
    fix p
    assume "p < length ((flipped_heap h i j)
             [i := (h ! i)\<lparr>rec_Rank := rec_Rank (h ! j)\<rparr>,
              j := (h ! j)\<lparr>rec_Rank := rec_Rank (h ! i)\<rparr>])"
    then have p: "p < n"
      by (simp add: flipped_heap_def n)
    consider "p = i" | "p = j" | "p \<noteq> i" "p \<noteq> j"
      by blast
    then show "(flipped_heap h i j)
             [i := (h ! i)\<lparr>rec_Rank := rec_Rank (h ! j)\<rparr>,
              j := (h ! j)\<lparr>rec_Rank := rec_Rank (h ! i)\<rparr>] ! p = flipped_heap h (Suc i) (j - 1) ! p"
    proof cases
      case 1
      then show ?thesis
        using ij jn in' ni n by (simp add: flipped_heap_def)
    next
      case 2
      then show ?thesis
        using ij jn in' nj n by (simp add: flipped_heap_def)
    next
      case 3
      then show ?thesis
        using ij jn in' p n by (auto simp: flipped_heap_def)
    qed
  qed
  have h1: "(flipped_heap h i j)[i := (h ! i)\<lparr>rec_Rank := rec_Rank (h ! j)\<rparr>] ! j = h ! j"
    using ij hj by simp
  show ?thesis
    unfolding swap_step_def Let_def prod.case ri rj hi hj h1 R H ..
qed

lemma flipped_records_final:
  assumes s: "i + j + 1 = n" and ij: "\<not> i < j" "i \<le> j + 1"
  shows "flipped_records n i j = rev [0..<n]"
proof (rule nth_equalityI)
  show "length (flipped_records n i j) = length (rev [0..<n])"
    by (simp add: flipped_records_def)
next
  fix q
  assume "q < length (flipped_records n i j)"
  then have q: "q < n"
    by (simp add: flipped_records_def)
  have e: "(if q < i \<or> j < q then n - Suc q else q) = n - Suc q"
    using s ij q by auto
  have a: "flipped_records n i j ! q = (if q < i \<or> j < q then n - Suc q else q)"
    using q by (simp add: flipped_records_def)
  have b: "rev [0..<n] ! q = n - Suc q"
    using q by (simp add: rev_nth)
  show "flipped_records n i j ! q = rev [0..<n] ! q"
    unfolding a b by (rule e)
qed

lemma flipped_heap_final:
  assumes n: "length h = n" and s: "i + j + 1 = n" and ij: "\<not> i < j" "i \<le> j + 1"
  shows "flipped_heap h i j = map (\<lambda>p. (h ! p)\<lparr>rec_Rank := rec_Rank (h ! (n - Suc p))\<rparr>) [0..<n]"
proof (rule nth_equalityI)
  show "length (flipped_heap h i j) =
      length (map (\<lambda>p. (h ! p)\<lparr>rec_Rank := rec_Rank (h ! (n - Suc p))\<rparr>) [0..<n])"
    by (simp add: flipped_heap_def n)
next
  fix p
  assume "p < length (flipped_heap h i j)"
  then have p: "p < n"
    by (simp add: flipped_heap_def n)
  have "\<not> (p < i \<or> j < p) \<Longrightarrow> n - Suc p = p"
    using s ij p by auto
  then have e: "(if p < i \<or> j < p then (h ! p)\<lparr>rec_Rank := rec_Rank (h ! (n - Suc p))\<rparr> else h ! p) =
      (h ! p)\<lparr>rec_Rank := rec_Rank (h ! (n - Suc p))\<rparr>"
    by auto
  have a: "flipped_heap h i j ! p =
      (if p < i \<or> j < p then (h ! p)\<lparr>rec_Rank := rec_Rank (h ! (length h - Suc p))\<rparr> else h ! p)"
    using p n by (simp add: flipped_heap_def)
  have b: "map (\<lambda>p. (h ! p)\<lparr>rec_Rank := rec_Rank (h ! (n - Suc p))\<rparr>) [0..<n] ! p =
      (h ! p)\<lparr>rec_Rank := rec_Rank (h ! (n - Suc p))\<rparr>"
    using p by simp
  show "flipped_heap h i j ! p =
      map (\<lambda>p. (h ! p)\<lparr>rec_Rank := rec_Rank (h ! (n - Suc p))\<rparr>) [0..<n] ! p"
    unfolding a b n by (rule e)
qed

lemma flip_loop_flipped:
  assumes "length h = n" and "i + j + 1 = n" and "i \<le> j + 1"
  shows "flip_loop (int i) (int j) (flipped_records n i j, flipped_heap h i j) =
           (rev [0..<n], map (\<lambda>p. (h ! p)\<lparr>rec_Rank := rec_Rank (h ! (n - Suc p))\<rparr>) [0..<n])"
  using assms
proof (induction "j - i" arbitrary: i j rule: less_induct)
  case less
  show ?case
  proof (cases "i < j")
    case True
    have st: "swap_step (nat (int i)) (nat (int j)) (flipped_records n i j, flipped_heap h i j) =
        (flipped_records n (Suc i) (j - 1), flipped_heap h (Suc i) (j - 1))"
      using swap_step_flipped [OF less.prems(1) True less.prems(2)] by simp
    have ii: "int i + 1 = int (Suc i)" and jj: "int j - 1 = int (j - 1)"
      using True by auto
    have "flip_loop (int (Suc i)) (int (j - 1))
            (flipped_records n (Suc i) (j - 1), flipped_heap h (Suc i) (j - 1)) =
          (rev [0..<n], map (\<lambda>p. (h ! p)\<lparr>rec_Rank := rec_Rank (h ! (n - Suc p))\<rparr>) [0..<n])"
      using True less.prems by (intro less.hyps) auto
    then show ?thesis
      using True by (simp only: flip_loop_step of_nat_less_iff st ii jj)
  next
    case False
    show ?thesis
      using False flipped_records_final [OF less.prems(2) False less.prems(3)]
        flipped_heap_final [OF less.prems(1) less.prems(2) False less.prems(3)]
      by (simp add: flip_loop_done)
  qed
qed

text \<open>
  The reversal loop over \<open>n\<close> records at the addresses \<open>0, ..., n - 1\<close>: the slice of
  pointers is reversed, and the record at address \<open>p\<close> has received the rank of the record
  at address \<open>n - 1 - p\<close>.
\<close>

lemma flip_loop_all:
  assumes "length h = n"
  shows "flip_loop 0 (int n - 1) ([0..<n], h) =
           (rev [0..<n], map (\<lambda>p. (h ! p)\<lparr>rec_Rank := rec_Rank (h ! (n - Suc p))\<rparr>) [0..<n])"
proof (cases n)
  case 0
  then show ?thesis
    using assms by (simp add: flip_loop_done)
next
  case (Suc m)
  have r: "flipped_records n 0 m = [0..<n]"
    unfolding flipped_records_def Suc by (intro nth_equalityI) (auto simp del: upt_Suc)
  have h: "flipped_heap h 0 m = h"
    unfolding flipped_heap_def using assms Suc by (intro nth_equalityI) (auto simp del: upt_Suc)
  have "flip_loop (int 0) (int m) (flipped_records n 0 m, flipped_heap h 0 m) =
      (rev [0..<n], map (\<lambda>p. (h ! p)\<lparr>rec_Rank := rec_Rank (h ! (n - Suc p))\<rparr>) [0..<n])"
    using assms Suc by (intro flip_loop_flipped) auto
  moreover have "int m = int n - 1"
    using Suc by simp
  ultimately show ?thesis
    unfolding r h by (simp only: of_nat_0)
qed

text \<open>
  What the caller sees after the reversal: at position \<open>q\<close> the record that was at
  position \<open>n - 1 - q\<close>, with the rank that was at position \<open>q\<close>. The records are reversed
  and the ranks are not.
\<close>

lemma flip_loop_view:
  assumes "length h = n" and "flip_loop 0 (int n - 1) ([0..<n], h) = (records, heap)"
  shows "map (\<lambda>p. heap ! p) records =
           map (\<lambda>q. (h ! (n - Suc q))\<lparr>rec_Rank := rec_Rank (h ! q)\<rparr>) [0..<n]"
proof -
  have rh: "records = rev [0..<n]"
      "heap = map (\<lambda>p. (h ! p)\<lparr>rec_Rank := rec_Rank (h ! (n - Suc p))\<rparr>) [0..<n]"
    using flip_loop_all [OF assms(1)] assms(2) by auto
  show ?thesis
  proof (rule nth_equalityI)
    show "length (map (\<lambda>p. heap ! p) records) =
        length (map (\<lambda>q. (h ! (n - Suc q))\<lparr>rec_Rank := rec_Rank (h ! q)\<rparr>) [0..<n])"
      by (simp add: rh)
  next
    fix q
    assume "q < length (map (\<lambda>p. heap ! p) records)"
    then have q: "q < n"
      by (simp add: rh)
    then have "n - Suc (n - Suc q) = q"
      by auto
    then show "map (\<lambda>p. heap ! p) records ! q =
        map (\<lambda>q. (h ! (n - Suc q))\<lparr>rec_Rank := rec_Rank (h ! q)\<rparr>) [0..<n] ! q"
      using q by (simp add: rh rev_nth)
  qed
qed

lemma list_row_fields:
  "ll_records (list_row lid exp limit ic st row) = ll_records st @ [length (ll_heap st)]"
  "ll_heap (list_row lid exp limit ic st row) =
     ll_heap st @ [list_record lid exp (wrap64 (ll_rank st + rank_step ic)) row]"
  "ll_rank (list_row lid exp limit ic st row) = wrap64 (ll_rank st + rank_step ic)"
  by (auto simp: list_row_def Let_def rank_step_def split: option.splits)

lemma foldl_list_row_shape:
  "ll_records (foldl (list_row lid exp limit ic) ini rows) =
     ll_records ini @ [length (ll_heap ini)..<length (ll_heap ini) + length rows] \<and>
   length (ll_heap (foldl (list_row lid exp limit ic) ini rows)) = length (ll_heap ini) + length rows"
  by (induction rows rule: rev_induct) (simp_all add: list_row_fields)

lemma rank_step_abs: "rank_step ic = 1 \<or> rank_step ic = - 1"
  by (auto simp: rank_step_def split: option.splits)

lemma foldl_list_row_ranks:
  assumes "- (2 ^ 63) \<le> ll_rank ini - int (length rows)"
    and "ll_rank ini + int (length rows) < 2 ^ 63"
  shows "ll_heap (foldl (list_row lid exp limit ic) ini rows) =
           ll_heap ini @ map (\<lambda>k. list_record lid exp (ll_rank ini + rank_step ic * (int k + 1)) (rows ! k))
                           [0..<length rows] \<and>
         ll_rank (foldl (list_row lid exp limit ic) ini rows) =
           ll_rank ini + rank_step ic * int (length rows)"
  using assms
proof (induction rows rule: rev_induct)
  case Nil
  then show ?case by simp
next
  case (snoc row rows)
  let ?st = "foldl (list_row lid exp limit ic) ini rows"
  have ih: "ll_heap ?st = ll_heap ini @
        map (\<lambda>k. list_record lid exp (ll_rank ini + rank_step ic * (int k + 1)) (rows ! k)) [0..<length rows]"
      "ll_rank ?st = ll_rank ini + rank_step ic * int (length rows)"
    using snoc by auto
  have w: "wrap64 (ll_rank ?st + rank_step ic) = ll_rank ini + rank_step ic * (int (length rows) + 1)"
  proof -
    have "wrap64 (ll_rank ?st + rank_step ic) = ll_rank ?st + rank_step ic"
      using snoc.prems rank_step_abs [of ic] unfolding ih(2) by (intro wrap64_id) auto
    then show ?thesis
      by (simp add: ih(2) algebra_simps)
  qed
  have m: "map (\<lambda>k. list_record lid exp (ll_rank ini + rank_step ic * (int k + 1)) ((rows @ [row]) ! k))
        [0..<length rows] =
      map (\<lambda>k. list_record lid exp (ll_rank ini + rank_step ic * (int k + 1)) (rows ! k)) [0..<length rows]"
    by (simp add: nth_append)
  have f: "foldl (list_row lid exp limit ic) ini (rows @ [row]) = list_row lid exp limit ic ?st row"
    by simp
  have h: "ll_heap (list_row lid exp limit ic ?st row) =
      ll_heap ini @
        map (\<lambda>k. list_record lid exp (ll_rank ini + rank_step ic * (int k + 1)) ((rows @ [row]) ! k))
          [0..<length (rows @ [row])]"
    unfolding list_row_fields w ih(1) by (simp add: m)
  have r: "ll_rank (list_row lid exp limit ic ?st row) =
      ll_rank ini + rank_step ic * int (length (rows @ [row]))"
    unfolding list_row_fields w by (simp add: algebra_simps)
  show ?case
    unfolding f using h r by blast
qed

lemma list_record_rank:
  "(list_record lid exp a row)\<lparr>rec_Rank := b\<rparr> = list_record lid exp b row"
  by (simp add: list_record_def)

lemma rec_Rank_list_record: "rec_Rank (list_record lid exp a row) = a"
  by (simp add: list_record_def)

lemma list_page_records:
  assumes "list_page K lid exp limit ic rows = Inr (records, ns, ps)"
  shows "records =
     (let st = foldl (list_row lid exp limit ic)
                 \<lparr>ll_heap = [], ll_records = [], ll_rank = (case ic of None \<Rightarrow> 0 | Some c \<Rightarrow> Rank c),
                  ll_nextCursor = None, ll_prevCursor = None, ll_dbOwnerID = [], ll_dbScore = 0,
                  ll_dbSubscore = 0\<rparr> rows;
          rh = (if (case ic of None \<Rightarrow> False | Some c \<Rightarrow> \<not> IsNext c)
                then flip_loop 0 (int (length (ll_records st)) - 1) (ll_records st, ll_heap st)
                else (ll_records st, ll_heap st))
      in map (\<lambda>p. snd rh ! p) (fst rh))"
  using assms unfolding list_page_def Let_def
  by (auto split: sum.splits prod.splits)

lemma map_nth_upt: "length h = n \<Longrightarrow> map (\<lambda>p. h ! p) [0..<n] = h"
  by (auto intro: nth_equalityI)

text \<open>
  Every fetched row becomes a returned record: the page holds as many records as the
  query fetched rows, so \<open>limit + 1\<close> of them when \<open>limit + 1\<close> rows were fetched.
\<close>

lemma list_page_length:
  assumes "list_page K lid exp limit ic rows = Inr (records, ns, ps)"
  shows "length records = length rows"
proof -
  let ?ini = "\<lparr>ll_heap = [], ll_records = [], ll_rank = (case ic of None \<Rightarrow> 0 | Some c \<Rightarrow> Rank c),
      ll_nextCursor = None, ll_prevCursor = None, ll_dbOwnerID = [], ll_dbScore = 0,
      ll_dbSubscore = 0\<rparr>"
  let ?fin = "foldl (list_row lid exp limit ic) ?ini rows"
  have sh: "ll_records ?fin = [0..<length rows]" "length (ll_heap ?fin) = length rows"
    using foldl_list_row_shape [where ini = ?ini and rows = rows and ic = ic and lid = lid and exp = exp and limit = limit] by simp_all
  have fl: "fst (flip_loop 0 (int (length rows) - 1) ([0..<length rows], ll_heap ?fin)) =
      rev [0..<length rows]"
    using flip_loop_all [OF sh(2)] by simp
  show ?thesis
    using list_page_records [OF assms] fl unfolding Let_def sh(1)
    by (auto split: if_splits)
qed

text \<open>
  A page without a cursor or with a next cursor: the rows in the order fetched, the
  ranks counting up from the cursor's rank.
\<close>

lemma list_page_forward:
  assumes page: "list_page K lid exp limit ic rows = Inr (records, ns, ps)"
    and fw: "ic = None \<or> (\<exists>c. ic = Some c \<and> IsNext c)"
    and r0: "r0 = (case ic of None \<Rightarrow> 0 | Some c \<Rightarrow> Rank c)"
    and lo: "- (2 ^ 63) \<le> r0 - int (length rows)" and hi: "r0 + int (length rows) < 2 ^ 63"
  shows "records = map (\<lambda>q. list_record lid exp (r0 + 1 + int q) (rows ! q)) [0..<length rows]"
proof -
  let ?ini = "\<lparr>ll_heap = [], ll_records = [], ll_rank = (case ic of None \<Rightarrow> 0 | Some c \<Rightarrow> Rank c),
      ll_nextCursor = None, ll_prevCursor = None, ll_dbOwnerID = [], ll_dbScore = 0,
      ll_dbSubscore = 0\<rparr>"
  let ?fin = "foldl (list_row lid exp limit ic) ?ini rows"
  have sh: "ll_records ?fin = [0..<length rows]" "length (ll_heap ?fin) = length rows"
    using foldl_list_row_shape [where ini = ?ini and rows = rows and ic = ic and lid = lid and exp = exp and limit = limit] by simp_all
  have d: "rank_step ic = 1"
    using fw by (auto simp: rank_step_def)
  have hp: "ll_heap ?fin = map (\<lambda>k. list_record lid exp (r0 + 1 + int k) (rows ! k)) [0..<length rows]"
    using foldl_list_row_ranks [where ini = ?ini and rows = rows and ic = ic and lid = lid and exp = exp and limit = limit] lo hi
    by (simp add: d r0 [symmetric] algebra_simps)
  have nf: "\<not> (case ic of None \<Rightarrow> False | Some c \<Rightarrow> \<not> IsNext c)"
    using fw by auto
  have "records = map (\<lambda>p. ll_heap ?fin ! p) [0..<length rows]"
    using list_page_records [OF page] nf unfolding Let_def sh(1) by simp
  then have "records = ll_heap ?fin"
    by (simp only: map_nth_upt [OF sh(2)])
  then show ?thesis
    unfolding hp .
qed

text \<open>
  A page with a previous cursor of rank \<open>R\<close>, over \<open>n\<close> fetched rows: the row fetched at
  position \<open>k\<close> is given rank \<open>R - 1 - k\<close> in the loop. The returned list holds at position
  \<open>q\<close> the row fetched at position \<open>n - 1 - q\<close>, and with it the rank \<open>R - 1 - q\<close> of the row
  fetched at position \<open>q\<close>: the records are reversed, the ranks stay where they were.
\<close>

lemma list_page_previous:
  assumes page: "list_page K lid exp limit (Some c) rows = Inr (records, ns, ps)"
    and prev: "\<not> IsNext c"
    and lo: "- (2 ^ 63) \<le> Rank c - int (length rows)" and hi: "Rank c + int (length rows) < 2 ^ 63"
  shows "records =
           map (\<lambda>q. list_record lid exp (Rank c - 1 - int q) (rows ! (length rows - Suc q)))
             [0..<length rows]"
proof -
  let ?ini = "\<lparr>ll_heap = [], ll_records = [],
      ll_rank = Rank c,
      ll_nextCursor = None, ll_prevCursor = None, ll_dbOwnerID = [], ll_dbScore = 0,
      ll_dbSubscore = 0\<rparr>"
  let ?fin = "foldl (list_row lid exp limit (Some c)) ?ini rows"
  let ?n = "length rows"
  have sh: "ll_records ?fin = [0..<?n]" "length (ll_heap ?fin) = ?n"
    using foldl_list_row_shape [where ini = ?ini and rows = rows and ic = "Some c" and lid = lid and exp = exp and limit = limit] by simp_all
  have d: "rank_step (Some c) = - 1"
    using prev by (simp add: rank_step_def)
  have hp: "ll_heap ?fin = map (\<lambda>k. list_record lid exp (Rank c - 1 - int k) (rows ! k)) [0..<?n]"
    using foldl_list_row_ranks [where ini = ?ini and rows = rows and ic = "Some c" and lid = lid and exp = exp and limit = limit] lo hi
    by (simp add: d algebra_simps)
  obtain rs hp' where fl: "flip_loop 0 (int ?n - 1) ([0..<?n], ll_heap ?fin) = (rs, hp')"
    by (cases "flip_loop 0 (int ?n - 1) ([0..<?n], ll_heap ?fin)") auto
  have "records = map (\<lambda>p. hp' ! p) rs"
    using list_page_records [OF page] prev by (simp add: Let_def sh(1) fl)
  also have "\<dots> = map (\<lambda>q. (ll_heap ?fin ! (?n - Suc q))\<lparr>rec_Rank := rec_Rank (ll_heap ?fin ! q)\<rparr>) [0..<?n]"
    by (rule flip_loop_view [OF sh(2) fl])
  also have "\<dots> = map (\<lambda>q. list_record lid exp (Rank c - 1 - int q) (rows ! (?n - Suc q))) [0..<?n]"
    unfolding hp by (auto simp: list_record_rank rec_Rank_list_record)
  finally show ?thesis .
qed

text \<open>
  C5. The claim: with a cursor the page consists of the keys strictly greater than the
  cursor's in ascending order (ascending with next, descending with previous) or of the
  keys strictly less in descending order (the two other combinations); \<open>limit + 1\<close> rows
  are fetched and the extra row is never among the returned records. The first part holds
  of the rows the query fetches (\<open>select_page_with_cursor\<close>). The last part fails on the
  code: every fetched row is returned (\<open>list_page_length\<close>), because the loop over the
  rows sets \<open>nextCursor\<close> and does not leave the loop. Here, with limit 1 and a next
  cursor at \<open>c\<close> (rank 1) on the descending leaderboard, the query fetches the two rows
  below \<open>c\<close> and the call returns both, the extra row \<open>a\<close> included.
\<close>

theorem list_returns_extra_row:
  "list_summary (LeaderboardRecordsList demo_env ''lb'' (Some 1) ''n2_lb0_30_0_1_c1_'' [] 0
      (demo_world demo_rows)) =
     Inr ([(''b'', 20, 0, 2), (''a'', 10, 0, 3)], ''n2_lb0_20_0_1_b2_'', ''p2_lb0_20_0_1_b2_'')"
  by code_simp

text \<open>
  C1. The claim: a listing with a previous cursor returns the records best first, each
  with the rank of its own key, so that going forward one page and back with the returned
  previous cursor gives the original page with equal ranks. It fails on the code: the
  reversal swaps the records and swaps their ranks back, so the ranks stay in the order
  fetched (\<open>list_page_previous\<close>). Here, listing backwards from the previous cursor at
  \<open>a\<close> (rank 3) on the descending leaderboard returns \<open>c\<close> and \<open>b\<close> best first, but \<open>c\<close>
  carries rank 2 and \<open>b\<close> rank 1. The first page (limit 2, no cursor) held \<open>c\<close>, \<open>b\<close> and
  \<open>a\<close> with ranks 1, 2, 3; going forward with its next cursor and back with the returned
  previous cursor does not give it again.
\<close>

theorem list_previous_page_ranks:
  "list_summary (LeaderboardRecordsList demo_env ''lb'' (Some 2) [] [] 0 (demo_world demo_rows)) =
     Inr ([(''c'', 30, 0, 1), (''b'', 20, 0, 2), (''a'', 10, 0, 3)], ''n2_lb0_20_0_1_b2_'', []) \<and>
   list_summary (LeaderboardRecordsList demo_env ''lb'' (Some 2) ''n2_lb0_20_0_1_b2_'' [] 0
      (demo_world demo_rows)) =
     Inr ([(''a'', 10, 0, 3)], [], ''p2_lb0_10_0_1_a3_'') \<and>
   list_summary (LeaderboardRecordsList demo_env ''lb'' (Some 2) ''p2_lb0_10_0_1_a3_'' [] 0
      (demo_world demo_rows)) =
     Inr ([(''c'', 30, 0, 2), (''b'', 20, 0, 1)], ''n2_lb0_20_0_1_b2_'', [])"
  by code_simp

subsection \<open>The haystack window\<close>

lemma length_order_asc: "length (order_asc rows) = length rows"
  by (simp add: order_asc_def)

lemma length_order_desc: "length (order_desc rows) = length rows"
  by (simp add: order_desc_def)

lemma sql_limit_Some:
  "0 \<le> n \<Longrightarrow> \<exists>ys. sql_limit n xs = Some ys \<and> int (length ys) \<le> n \<and> length ys \<le> length xs"
  by (auto simp: sql_limit_def)

lemma sql_select_haystack_Some:
  assumes "0 \<le> p6"
  shows "\<exists>rows. sql_select_haystack g p1 p2 p3 p4 p5 p6 tbl = Some rows \<and>
           int (length rows) \<le> p6 \<and> length rows \<le> length tbl"
proof -
  let ?sel = "if g
        then order_asc (filter (\<lambda>r. leaderboard_id r = p1 \<and> expiry_time r = p2 \<and>
                 (score r, subscore r, owner_id r) > (p3, p4, p5)) tbl)
        else order_desc (filter (\<lambda>r. leaderboard_id r = p1 \<and> expiry_time r = p2 \<and>
                 (score r, subscore r, owner_id r) < (p3, p4, p5)) tbl)"
  have l: "length ?sel \<le> length tbl"
    by (simp add: length_order_asc length_order_desc)
  obtain ys where ys: "sql_limit p6 ?sel = Some ys" "int (length ys) \<le> p6" "length ys \<le> length ?sel"
    using sql_limit_Some [OF assms, of ?sel] by blast
  show ?thesis
    using ys l unfolding sql_select_haystack_def by (intro exI [of _ ys]) simp
qed

lemma drop_overflow_ok:
  assumes "0 \<le> lim" and "int (length xs) \<le> lim + 1"
  shows "\<exists>b ys. drop_overflow lim xs = Inr (b, ys) \<and> int (length ys) \<le> lim \<and> length ys \<le> length xs"
  using assms by (auto simp: drop_overflow_def)

lemma go_div_pos: "0 \<le> a \<Longrightarrow> go_div a 2 = a div 2"
  by (cases "a = 0") (simp_all add: go_div_def)

lemma in_window:
  assumes "s \<le> F" and "F < s + n" and "F < length xs"
  shows "xs ! F \<in> set (take n (drop s xs))"
proof -
  have a: "F - s < length xs - s" and b: "F - s < n"
    using assms by arith+
  have "F - s < length (take n (drop s xs))"
    using a b by simp
  moreover have "take n (drop s xs) ! (F - s) = xs ! F"
    using assms b by simp
  ultimately show ?thesis
    by (metis nth_mem)
qed

lemma haystack_window_ok:
  assumes lim: "1 \<le> limit" "limit < 2 ^ 63"
    and F: "0 \<le> F" "nat F < length xs"
    and S: "limit div 2 \<le> F \<longrightarrow> int (length xs) - F - 1 \<le> limit div 2"
    and n: "int (length xs) < 2 ^ 63"
  shows "\<exists>win. haystack_window limit F xs = Inr win \<and> xs ! nat F \<in> set win \<and>
           int (length win) \<le> limit"
proof -
  define N where "N = int (length xs)"
  define start where
    "start = (if wrap64 (N - limit) < 0 \<or> F < go_div limit 2 then 0 else wrap64 (N - limit))"
  define end1 where
    "end1 = (if wrap64 (start + limit) > N then N else wrap64 (start + limit))"
  have hw: "haystack_window limit F xs =
      (if start \<le> end1 \<and> 0 \<le> end1 then Inr (take (nat (end1 - start)) (drop (nat start) xs))
       else Inl Panic)"
    by (simp add: haystack_window_def Let_def start_def end1_def N_def)
  have FN: "F < N"
    using F by (simp add: N_def)
  have gd: "go_div limit 2 = limit div 2"
    using lim by (simp add: go_div_pos)
  have w0: "wrap64 (N - limit) = N - limit"
    using lim n by (intro wrap64_id) (auto simp: N_def)
  have st: "start = (if N - limit < 0 \<or> F < limit div 2 then 0 else N - limit)"
    by (simp add: start_def w0 gd)
  have st0: "0 \<le> start" and stF: "start \<le> F" and stN: "start + limit \<le> N \<or> start = 0"
    using S lim FN F(1) unfolding st N_def [symmetric] by (auto split: if_splits)
  have w1: "wrap64 (start + limit) = start + limit"
    using stN st0 lim n by (intro wrap64_id) (auto simp: N_def)
  have en: "end1 = (if start + limit > N then N else start + limit)"
    by (simp add: end1_def w1)
  have Fe: "F < end1"
    using S lim FN F(1) unfolding en st by (auto split: if_splits)
  have el: "end1 - start \<le> limit"
    unfolding en by auto
  have ok: "start \<le> end1 \<and> 0 \<le> end1"
    using stF Fe F(1) by auto
  have m: "xs ! nat F \<in> set (take (nat (end1 - start)) (drop (nat start) xs))"
    using st0 stF Fe F by (intro in_window) auto
  have len: "int (length (take (nat (end1 - start)) (drop (nat start) xs))) \<le> limit"
    using el lim by auto
  show ?thesis
    using hw ok m len by auto
qed


lemma haystack_sides_ok:
  assumes lim: "2 \<le> limit" "limit < 2 ^ 63 - 1"
    and tb: "int (length tbl) < 2 ^ 62"
  shows "\<exists>win sn sp evs. haystack_sides so lid exp own limit orec tbl = (Inr (win, sn, sp), evs) \<and>
           orec \<in> set win \<and> int (length win) \<le> limit"
proof -
  have w1: "wrap64 (limit + 1) = limit + 1"
    using lim by (intro wrap64_id) auto
  obtain firstRows where fr: "sql_select_haystack (so \<noteq> LeaderboardSortOrderAscending) lid exp
        (rec_Score orec) (rec_Subscore orec) own (limit + 1) tbl = Some firstRows"
      and frl: "int (length firstRows) \<le> limit + 1" "length firstRows \<le> length tbl"
  proof -
    have p: "0 \<le> limit + 1"
      using lim by simp
    show ?thesis
      using sql_select_haystack_Some [OF p] that by blast
  qed
  obtain sn ft where d1: "drop_overflow limit (map parse_record firstRows) = Inr (sn, ft)"
      and ftl: "int (length ft) \<le> limit" "length ft \<le> length (map parse_record firstRows)"
    using drop_overflow_ok [of limit "map parse_record firstRows"] frl lim by auto
  define sl where "sl = (if int (length (rev ft)) < go_div limit 2
      then wrap64 (limit - int (length (rev ft))) else go_div limit 2)"
  have gd: "go_div limit 2 = limit div 2"
    using lim by (simp add: go_div_pos)
  have wl: "wrap64 (limit - int (length (rev ft))) = limit - int (length (rev ft))"
    using lim ftl by (intro wrap64_id) auto
  have sl: "sl = (if int (length ft) < limit div 2 then limit - int (length ft) else limit div 2)"
    unfolding sl_def wl gd by simp
  have slb: "0 \<le> sl" "sl \<le> limit"
    using lim ftl unfolding sl by (auto split: if_splits)
  have w2: "wrap64 (sl + 1) = sl + 1"
    using lim slb by (intro wrap64_id) auto
  obtain secondRows where sr: "sql_select_haystack (so = LeaderboardSortOrderAscending) lid exp
        (rec_Score orec) (rec_Subscore orec) own (sl + 1) tbl = Some secondRows"
      and srl: "int (length secondRows) \<le> sl + 1" "length secondRows \<le> length tbl"
  proof -
    have p: "0 \<le> sl + 1"
      using slb by simp
    show ?thesis
      using sql_select_haystack_Some [OF p] that by blast
  qed
  obtain sp st where d2: "drop_overflow sl (map parse_record secondRows) = Inr (sp, st)"
      and stl: "int (length st) \<le> sl" "length st \<le> length (map parse_record secondRows)"
    using drop_overflow_ok [of sl "map parse_record secondRows"] srl slb by auto
  let ?xs = "rev ft @ [orec] @ st"
  have F: "0 \<le> int (length (rev ft))" "nat (int (length (rev ft))) < length ?xs"
    by simp_all
  have S: "limit div 2 \<le> int (length (rev ft)) \<longrightarrow>
      int (length ?xs) - int (length (rev ft)) - 1 \<le> limit div 2"
    using stl unfolding sl by (auto split: if_splits)
  have n: "int (length ?xs) < 2 ^ 63"
    using tb frl srl ftl stl by simp
  have lim': "1 \<le> limit" "limit < 2 ^ 63"
    using lim by auto
  obtain win where hw: "haystack_window limit (int (length (rev ft))) ?xs = Inr win"
      and own: "?xs ! nat (int (length (rev ft))) \<in> set win" and wl: "int (length win) \<le> limit"
    using haystack_window_ok [OF lim' F S n] by blast
  have o: "?xs ! nat (int (length (rev ft))) = orec"
    using nth_append_length [of "rev ft" orec st] by simp
  have "haystack_sides so lid exp own limit orec tbl =
      (Inr (win, sn, sp), [DbSelectHaystack, DbSelectHaystack])"
    unfolding haystack_sides_def w1 fr option.case d1 sum.case prod.case Let_def
      sl_def [symmetric] w2 sr
    by (simp only: d2 sum.case prod.case hw)
  then show ?thesis
    using own wl unfolding o by blast
qed


lemma haystack_cursor_ok:
  assumes "\<And>c. gob_Encode K c \<noteq> None"
  shows "\<exists>s. haystack_cursor K e b r = Inr s"
proof -
  obtain bs where "gob_Encode K \<lparr>IsNext = b, LeaderboardId = rec_LeaderboardId r, ExpiryTime = e,
        Score = rec_Score r, Subscore = rec_Subscore r, OwnerId = rec_OwnerId r,
        Rank = rec_Rank r\<rparr> = Some bs"
    using assms by fastforce
  then show ?thesis
    by (simp add: haystack_cursor_def marshalLeaderboardRecordsListCursor_def)
qed

text \<open>
  C6 (as amended). For a haystack call with an empty cursor: when the owner has no record
  at \<open>(leaderboard_id, owner_id, expiry)\<close> the call returns the empty list and no error,
  whatever the limit. When the owner has one and the limit \<open>l\<close> has \<open>1 \<le> l\<close> and \<open>l + 1\<close>
  representable, the call returns a list that holds the owner's record (with its rank
  filled in) and at most \<open>l\<close> records; here the table holds fewer than \<open>2 ^ 62\<close> rows, and
  the library's gob encoder does not fail.
\<close>

theorem haystack_contains_owner:
  fixes E :: "'rc env" and limit expiryTime :: int and ownerID leaderboardId :: string
    and sortOrder :: sort_order and w :: "'rc world"
  defines "R \<equiv> getLeaderboardRecordsHaystack E ownerID limit leaderboardId [] sortOrder expiryTime w"
    and "K \<equiv> (\<lambda>r. owner_id r = ownerID \<and> leaderboard_id r = leaderboardId \<and>
                  expiry_time r = expiryTime)"
  shows "(find K (table w) = None \<longrightarrow>
            fst R = Inr \<lparr>Records = [], OwnerRecords = [], NextCursor = [], PrevCursor = []\<rparr>) \<and>
         (1 \<le> limit \<longrightarrow> limit < 2 ^ 63 - 1 \<longrightarrow> int (length (table w)) < 2 ^ 62 \<longrightarrow>
          (\<forall>c. gob_Encode (cursor_codec E) c \<noteq> None) \<longrightarrow>
            (\<forall>row. find K (table w) = Some row \<longrightarrow>
               (\<exists>res. fst R = Inr res \<and>
                  (\<exists>x \<in> set (Records res). x\<lparr>rec_Rank := 0\<rparr> = parse_record row) \<and>
                  int (length (Records res)) \<le> limit)))"
proof (intro conjI allI impI)
  assume "find K (table w) = None"
  then show "fst R = Inr \<lparr>Records = [], OwnerRecords = [], NextCursor = [], PrevCursor = []\<rparr>"
    unfolding R_def K_def by (simp add: getLeaderboardRecordsHaystack_def)
next
  fix row
  assume lim: "1 \<le> limit" "limit < 2 ^ 63 - 1"
    and tb: "int (length (table w)) < 2 ^ 62"
    and enc0: "\<forall>c. gob_Encode (cursor_codec E) c \<noteq> None"
    and f: "find K (table w) = Some row"
  have enc: "\<And>c. gob_Encode (cursor_codec E) c \<noteq> None"
    using enc0 by simp
  have r0: "(parse_record row)\<lparr>rec_Rank := 0\<rparr> = parse_record row"
    by (simp add: parse_record_def)
  show "\<exists>res. fst R = Inr res \<and> (\<exists>x \<in> set (Records res). x\<lparr>rec_Rank := 0\<rparr> = parse_record row) \<and>
               int (length (Records res)) \<le> limit"
  proof (cases "limit = 1")
    case True
    show ?thesis
      using f r0 unfolding R_def K_def
      by (simp add: getLeaderboardRecordsHaystack_def True Let_def)
  next
    case False
    then have lim2: "2 \<le> limit"
      using lim by simp
    obtain win sn sp evs where
      hs: "haystack_sides sortOrder leaderboardId expiryTime ownerID limit (parse_record row) (table w)
             = (Inr (win, sn, sp), evs)"
      and own: "parse_record row \<in> set win" and wl: "int (length win) \<le> limit"
      using haystack_sides_ok [OF lim2 lim(2) tb] by blast
    define records where "records = map (\<lambda>r. r\<lparr>rec_Rank :=
        rankCache_Fill E (rankCache w) leaderboardId expiryTime r\<rparr>) win"
    have mem: "\<exists>x \<in> set records. x\<lparr>rec_Rank := 0\<rparr> = parse_record row"
      using own r0 unfolding records_def by force
    have len: "int (length records) \<le> limit"
      using wl by (simp add: records_def)
    have ne: "records \<noteq> []"
      using mem by auto
    obtain x xs where rx: "records = x # xs"
      using ne by (cases records) auto
    obtain cn where cn: "haystack_cursor (cursor_codec E) expiryTime False x = Inr cn"
      using haystack_cursor_ok [OF enc] by blast
    obtain cp where cp: "haystack_cursor (cursor_codec E) expiryTime True (last records) = Inr cp"
      using haystack_cursor_ok [OF enc] by blast
    define ns where "ns = (if sn then cn else [])"
    define ps where "ps = (if sp then cp else [])"
    have ns: "(if sn
          then (case records of
                  [] \<Rightarrow> Inl Panic
                | firstRecord # rest \<Rightarrow>
                    haystack_cursor (cursor_codec E) expiryTime False firstRecord)
          else Inr []) = Inr ns"
      by (simp add: rx cn ns_def)
    have ps: "(if sp
          then (if records = [] then Inl Panic
                else haystack_cursor (cursor_codec E) expiryTime True (last records))
          else Inr []) = Inr ps"
      using ne by (simp add: cp ps_def)
    have "fst R = Inr \<lparr>Records = records, OwnerRecords = [], NextCursor = ns, PrevCursor = ps\<rparr>"
      unfolding R_def getLeaderboardRecordsHaystack_def Let_def
      using f [unfolded K_def] False
      by (simp only: hs records_def [symmetric] ns ps if_True if_False option.case prod.case
          sum.case fst_conv refl)
    then show ?thesis
      using mem len by auto
  qed
qed


theorem haystack_contains_owner_witness:
  "fst (getLeaderboardRecordsHaystack demo_env ''zz'' 2 ''lb'' [] LeaderboardSortOrderDescending 0
      (demo_world demo_rows)) =
     Inr \<lparr>Records = [], OwnerRecords = [], NextCursor = [], PrevCursor = []\<rparr> \<and>
   (\<exists>res. fst (getLeaderboardRecordsHaystack demo_env ''b'' 2 ''lb'' [] LeaderboardSortOrderDescending 0
        (demo_world demo_rows)) = Inr res \<and>
      (\<exists>x \<in> set (Records res). x\<lparr>rec_Rank := 0\<rparr> = parse_record (demo_row ''lb'' ''b'' 20 0)) \<and>
      int (length (Records res)) \<le> 2)"
proof -
  have lim: "(1::int) \<le> 2" "(2::int) < 2 ^ 63 - 1"
    by simp_all
  have tb: "int (length (table (demo_world demo_rows))) < 2 ^ 62"
    by (simp add: demo_world_def demo_rows_def)
  have enc: "\<And>c. gob_Encode (cursor_codec demo_env) c \<noteq> None"
    by (simp add: demo_env_def demo_codec_def)
  have none: "find (\<lambda>r. owner_id r = ''zz'' \<and> leaderboard_id r = ''lb'' \<and> expiry_time r = 0)
      (table (demo_world demo_rows)) = None"
    by (simp add: demo_world_def demo_rows_def demo_row_def)
  have some: "find (\<lambda>r. owner_id r = ''b'' \<and> leaderboard_id r = ''lb'' \<and> expiry_time r = 0)
      (table (demo_world demo_rows)) = Some (demo_row ''lb'' ''b'' 20 0)"
    by (simp add: demo_world_def demo_rows_def demo_row_def)
  show ?thesis
    using haystack_contains_owner [where E = demo_env and ownerID = "''zz''" and limit = 2
        and leaderboardId = "''lb''" and sortOrder = LeaderboardSortOrderDescending
        and expiryTime = 0 and w = "demo_world demo_rows"]
      haystack_contains_owner [where E = demo_env and ownerID = "''b''" and limit = 2
        and leaderboardId = "''lb''" and sortOrder = LeaderboardSortOrderDescending
        and expiryTime = 0 and w = "demo_world demo_rows"]
      none some lim tb enc
    by simp
qed

text \<open>
  For the owner's record to be returned the claim as first stated needs these limits. With
  limit 0 the owner has a record and the call returns the empty list; with the largest \<open>int\<close> as limit, \<open>limit + 1\<close>
  wraps to a negative \<open>LIMIT\<close> and the call returns the store's error.
\<close>

theorem haystack_limit_counterexample:
  "find (\<lambda>r. owner_id r = ''a'' \<and> leaderboard_id r = ''lb'' \<and> expiry_time r = 0)
      (table (demo_world [demo_row ''lb'' ''a'' 10 0])) = Some (demo_row ''lb'' ''a'' 10 0) \<and>
   list_summary (getLeaderboardRecordsHaystack demo_env ''a'' 0 ''lb'' []
      LeaderboardSortOrderDescending 0 (demo_world [demo_row ''lb'' ''a'' 10 0])) = Inr ([], [], []) \<and>
   list_summary (getLeaderboardRecordsHaystack demo_env ''a'' 9223372036854775807 ''lb'' []
      LeaderboardSortOrderDescending 0 (demo_world [demo_row ''lb'' ''a'' 10 0])) = Inl ErrStore"
  by code_simp

end
